theory Spec2Isabelle
  imports Main
begin

chapter \<open>The scripts as functions\<close>

section \<open>JavaScript strings\<close>

text \<open>
  A string is a list of characters; a character stands for a code unit below 256.
  \<open>is_space\<close> is the white space of \<^verbatim>\<open>String.prototype.trim\<close> and of the regular
  expression class \<^verbatim>\<open>\s\<close> in that range: tab, line feed, vertical tab, form feed,
  carriage return, space and no-break space.
\<close>

definition is_space :: "char \<Rightarrow> bool" where
  "is_space c = (c \<in> set [CHR 0x09, CHR 0x0A, CHR 0x0B, CHR 0x0C, CHR 0x0D, CHR 0x20, CHR 0xA0])"

definition in_range :: "char \<Rightarrow> char \<Rightarrow> char \<Rightarrow> bool" where
  "in_range lo hi c = ((of_char lo :: nat) \<le> of_char c \<and> (of_char c :: nat) \<le> of_char hi)"

definition is_digit :: "char \<Rightarrow> bool" where
  "is_digit c = in_range CHR ''0'' CHR ''9'' c"

definition is_word :: "char \<Rightarrow> bool" where
  "is_word c = (in_range CHR ''a'' CHR ''z'' c \<or> in_range CHR ''A'' CHR ''Z'' c
                \<or> is_digit c \<or> c = CHR ''_'')"

definition is_line_term :: "char \<Rightarrow> bool" where
  "is_line_term c = (c = CHR 0x0A \<or> c = CHR 0x0D)"

text \<open>
  Under the \<^verbatim>\<open>i\<close> flag two characters match when they have the same canonical form, the
  upper-case letter; below 256 these are the ASCII letters and the accented letters
  \<open>0xE0\<close> to \<open>0xFE\<close> without the division sign \<open>0xF7\<close>.
\<close>

definition canonicalize :: "char \<Rightarrow> char" where
  "canonicalize c =
     (if in_range CHR ''a'' CHR ''z'' c \<or> (in_range (CHR 0xE0) (CHR 0xFE) c \<and> c \<noteq> CHR 0xF7)
      then char_of (of_char c - (32 :: nat)) else c)"

definition trim :: "string \<Rightarrow> string" where
  "trim s = rev (dropWhile is_space (rev (dropWhile is_space s)))"

fun startsWith :: "string \<Rightarrow> string \<Rightarrow> bool" where
  "startsWith s [] = True"
| "startsWith [] (y # ys) = False"
| "startsWith (x # xs) (y # ys) = (if x = y then startsWith xs ys else False)"

fun includes_str :: "string \<Rightarrow> string \<Rightarrow> bool" where
  "includes_str [] t = (t = [])"
| "includes_str (x # xs) t = (if startsWith (x # xs) t then True else includes_str xs t)"

text \<open>\<open>startsWith\<close> under the \<^verbatim>\<open>i\<close> flag of a pattern: characters are compared in their
  canonical form.\<close>

fun startsWith_ci :: "string \<Rightarrow> string \<Rightarrow> bool" where
  "startsWith_ci s [] = True"
| "startsWith_ci [] (y # ys) = False"
| "startsWith_ci (x # xs) (y # ys) =
     (if canonicalize x = canonicalize y then startsWith_ci xs ys else False)"

definition endsWith :: "string \<Rightarrow> string \<Rightarrow> bool" where
  "endsWith s t = startsWith (rev s) (rev t)"

text \<open>\<^verbatim>\<open>s.split(c)\<close> for a one-character separator: never the empty list.\<close>

fun split_on :: "char \<Rightarrow> string \<Rightarrow> string list" where
  "split_on c [] = [[]]"
| "split_on c (x # xs) =
     (if x = c then [] # split_on c xs
      else (case split_on c xs of [] \<Rightarrow> [[x]] | y # ys \<Rightarrow> (x # y) # ys))"

fun join_lines :: "string list \<Rightarrow> string" where
  "join_lines [] = []"
| "join_lines [l] = l"
| "join_lines (l # m # ls) = l @ CHR 0x0A # join_lines (m # ls)"


section \<open>Regular expressions\<close>

text \<open>
  The fragment of JavaScript regular expressions that the scripts test lines against:
  character classes, concatenation, alternation, option, repetition of a class, and the
  assertions \<^verbatim>\<open>^\<close>, \<^verbatim>\<open>$\<close> (with and without the \<^verbatim>\<open>m\<close> flag) and \<^verbatim>\<open>\b\<close>.
  None of them has a back-reference or a look-around, so whether \<^verbatim>\<open>test\<close> succeeds is
  whether some substring is in the language, and the matcher tries every way.
\<close>

datatype cls =
    Ch char                 \<comment> \<open>one character\<close>
  | Rng char char           \<comment> \<open>\<^verbatim>\<open>[a-z]\<close>\<close>
  | WS                      \<comment> \<open>\<^verbatim>\<open>\s\<close>\<close>
  | Dot                     \<comment> \<open>\<^verbatim>\<open>.\<close>: anything but a line terminator\<close>
  | Ci char                 \<comment> \<open>one character under the i flag\<close>
  | Or cls cls              \<comment> \<open>union inside brackets\<close>
  | Not cls                 \<comment> \<open>\<^verbatim>\<open>[^...]\<close>, \<^verbatim>\<open>\S\<close>\<close>

fun cls_ok :: "cls \<Rightarrow> char \<Rightarrow> bool" where
  "cls_ok (Ch a) c = (c = a)"
| "cls_ok (Rng lo hi) c = in_range lo hi c"
| "cls_ok (Ci a) c = (canonicalize c = canonicalize a)"
| "cls_ok WS c = is_space c"
| "cls_ok Dot c = (\<not> is_line_term c)"
| "cls_ok (Or a b) c = (if cls_ok a c then True else cls_ok b c)"
| "cls_ok (Not a) c = (\<not> cls_ok a c)"

definition Wd :: cls where  \<comment> \<open>\<^verbatim>\<open>\w\<close>, \<^verbatim>\<open>[a-zA-Z0-9_]\<close>\<close>
  "Wd = Or (Rng CHR ''a'' CHR ''z'') (Or (Rng CHR ''A'' CHR ''Z'') (Or (Rng CHR ''0'' CHR ''9'') (Ch CHR ''_'')))"

definition one_of :: "string \<Rightarrow> cls" where  \<comment> \<open>\<^verbatim>\<open>[abc]\<close>; the string is not empty\<close>
  "one_of s = foldr (\<lambda>c r. Or (Ch c) r) (butlast s) (Ch (last s))"

datatype re =
    Eps
  | C cls
  | Star cls                \<comment> \<open>\<^verbatim>\<open>c*\<close>\<close>
  | Plus cls                \<comment> \<open>\<^verbatim>\<open>c+\<close>\<close>
  | Opt re                  \<comment> \<open>\<^verbatim>\<open>(r)?\<close>\<close>
  | Alt re re               \<comment> \<open>\<^verbatim>\<open>r|s\<close>\<close>
  | Cat re re
  | Bol                     \<comment> \<open>\<^verbatim>\<open>^\<close> without the m flag\<close>
  | Eoi                     \<comment> \<open>\<^verbatim>\<open>$\<close> without the m flag\<close>
  | EolM                    \<comment> \<open>\<^verbatim>\<open>$\<close> with the m flag\<close>
  | Wordb                   \<comment> \<open>\<^verbatim>\<open>\b\<close>\<close>

fun weight :: "re \<Rightarrow> nat" where
  "weight (Plus c) = 3"
| "weight (Opt r) = Suc (weight r)"
| "weight (Alt a b) = Suc (weight a + weight b)"
| "weight (Cat a b) = Suc (weight a + weight b)"
| "weight r = 1"

definition word_before :: "char option \<Rightarrow> bool" where
  "word_before p = (case p of None \<Rightarrow> False | Some c \<Rightarrow> is_word c)"

definition word_after :: "string \<Rightarrow> bool" where
  "word_after s = (case s of [] \<Rightarrow> False | c # _ \<Rightarrow> is_word c)"

text \<open>
  \<open>rmatch k p s\<close>: the expressions of \<open>k\<close>, one after the other, match a prefix of \<open>s\<close>;
  \<open>p\<close> is the character before \<open>s\<close> in the input, if any.
\<close>

function (sequential) rmatch :: "re list \<Rightarrow> char option \<Rightarrow> string \<Rightarrow> bool" where
  "rmatch [] p s = True"
| "rmatch (Eps # k) p s = rmatch k p s"
| "rmatch (C c # k) p [] = False"
| "rmatch (C c # k) p (x # xs) = (if cls_ok c x then rmatch k (Some x) xs else False)"
| "rmatch (Star c # k) p [] = rmatch k p []"
| "rmatch (Star c # k) p (x # xs) =
     (if cls_ok c x
      then (if rmatch (Star c # k) (Some x) xs then True else rmatch k p (x # xs))
      else rmatch k p (x # xs))"
| "rmatch (Plus c # k) p s = rmatch (C c # Star c # k) p s"
| "rmatch (Opt r # k) p s = (if rmatch (r # k) p s then True else rmatch k p s)"
| "rmatch (Alt a b # k) p s = (if rmatch (a # k) p s then True else rmatch (b # k) p s)"
| "rmatch (Cat a b # k) p s = rmatch (a # b # k) p s"
| "rmatch (Bol # k) p s = (if p = None then rmatch k p s else False)"
| "rmatch (Eoi # k) p s = (if s = [] then rmatch k p s else False)"
| "rmatch (EolM # k) p s = (if s = [] \<or> is_line_term (hd s) then rmatch k p s else False)"
| "rmatch (Wordb # k) p s = (if word_before p \<noteq> word_after s then rmatch k p s else False)"
  by pat_completeness auto
termination
  by (relation "measures [\<lambda>(k, p, s). length s, \<lambda>(k, p, s). sum_list (map weight k)]") auto

text \<open>\<^verbatim>\<open>r.test(s)\<close>: a match starting at some position of \<open>s\<close>, the end included.\<close>

fun search :: "re \<Rightarrow> char option \<Rightarrow> string \<Rightarrow> bool" where
  "search r p [] = rmatch [r] p []"
| "search r p (x # xs) = (if rmatch [r] p (x # xs) then True else search r (Some x) xs)"

definition test :: "re \<Rightarrow> string \<Rightarrow> bool" where
  "test r s = search r None s"

definition cat :: "re list \<Rightarrow> re" where
  "cat rs = foldr Cat rs Eps"

definition lit :: "string \<Rightarrow> re" where
  "lit s = cat (map (\<lambda>c. C (Ch c)) s)"

definition lit_ci :: "string \<Rightarrow> re" where
  "lit_ci s = cat (map (\<lambda>c. C (Ci c)) s)"

definition alts :: "re list \<Rightarrow> re" where  \<comment> \<open>\<^verbatim>\<open>a|b|c\<close>; the list is not empty\<close>
  "alts rs = foldr Alt (butlast rs) (last rs)"


section \<open>check-code-standards.js: the access modifier and its tag\<close>

text \<open>\<^verbatim>\<open>line.match(/^\s*(public|private|protected)\s/)\<close>: the three alternatives exclude
  each other, so the first group is the alternative that matches.\<close>

definition modifier_re :: "string \<Rightarrow> re" where
  "modifier_re kw = cat [Bol, Star WS, lit kw, C WS]"

definition getAccessModifier :: "string \<Rightarrow> string option" where
  "getAccessModifier line =
     (if test (modifier_re ''public'') line then Some ''public''
      else if test (modifier_re ''private'') line then Some ''private''
      else if test (modifier_re ''protected'') line then Some ''protected''
      else None)"

record check_result =
  valid :: bool
  message :: string

text \<open>\<^verbatim>\<open>/@public\b/.test(jsDocContent)\<close> and its two siblings.\<close>

definition has_tag :: "string \<Rightarrow> string \<Rightarrow> bool" where
  "has_tag kw jsDocContent = test (cat [lit (CHR ''@'' # kw), Wordb]) jsDocContent"

definition tagCount :: "string \<Rightarrow> nat" where
  "tagCount jsDocContent =
     length (filter (\<lambda>b. b) [has_tag ''public'' jsDocContent, has_tag ''private'' jsDocContent,
                             has_tag ''protected'' jsDocContent])"

text \<open>The modifier is \<^verbatim>\<open>null\<close> (\<open>None\<close>) or a string; the empty string is falsy as well.\<close>

definition checkAccessModifierTag :: "string \<Rightarrow> string option \<Rightarrow> check_result" where
  "checkAccessModifierTag jsDocContent actualModifier =
     (case actualModifier of
        None \<Rightarrow> \<lparr>valid = True, message = ''''\<rparr>
      | Some m \<Rightarrow>
          if m = [] then \<lparr>valid = True, message = ''''\<rparr>
          else if tagCount jsDocContent = 0
            then \<lparr>valid = False, message = ''Missing @'' @ m @ '' tag in JSDoc''\<rparr>
          else if tagCount jsDocContent > 1
            then \<lparr>valid = False, message = ''Multiple access modifier tags in JSDoc''\<rparr>
          else if m = ''public'' \<and> \<not> has_tag ''public'' jsDocContent
            then \<lparr>valid = False, message = ''JSDoc should have @public (method is public)''\<rparr>
          else if m = ''private'' \<and> \<not> has_tag ''private'' jsDocContent
            then \<lparr>valid = False, message = ''JSDoc should have @private (method is private)''\<rparr>
          else if m = ''protected'' \<and> \<not> has_tag ''protected'' jsDocContent
            then \<lparr>valid = False, message = ''JSDoc should have @protected (method is protected)''\<rparr>
          else \<lparr>valid = True, message = ''''\<rparr>)"


section \<open>check-code-standards.js: the single-line format of a property's block\<close>

record jsdoc_info =
  exists :: bool
  isSingleLine :: bool
  startIdx :: int
  endIdx :: int
  content :: string

text \<open>\<^verbatim>\<open>content.replace(/\/\*\*|\*\//g, '')\<close>: from the left, every \<^verbatim>\<open>/**\<close> and, where
  none starts, every \<^verbatim>\<open>*/\<close> is dropped.\<close>

function strip_delims :: "string \<Rightarrow> string" where
  "strip_delims s =
     (if s = [] then []
      else if startsWith s ''/**'' then strip_delims (drop 3 s)
      else if startsWith s ''*/'' then strip_delims (drop 2 s)
      else hd s # strip_delims (tl s))"
  by pat_completeness auto
termination
  by (relation "measure length") auto

declare strip_delims.simps [simp del]

definition checkSingleLineJsDoc :: "jsdoc_info \<Rightarrow> string \<Rightarrow> string list" where
  "checkSingleLineJsDoc jsDocInfo propertyType =
     (let errors = [];
          errors = (if \<not> isSingleLine jsDocInfo
                    then errors @ [propertyType @ '' should have single-line JSDoc (/** ... */), not multi-line'']
                    else errors);
          errors = (if isSingleLine jsDocInfo
                    then (if trim (strip_delims (content jsDocInfo)) = []
                          then errors @ [propertyType @ '' JSDoc is empty - add a description'']
                          else errors)
                    else errors)
      in errors)"


section \<open>check-code-standards.js: getJsDocInfo\<close>

datatype js_error =
    TypeError               \<comment> \<open>a method called on \<^verbatim>\<open>undefined\<close>\<close>
  | ReadError               \<comment> \<open>\<^verbatim>\<open>fs.readFileSync\<close> throws\<close>
  | ExecError               \<comment> \<open>\<^verbatim>\<open>execSync\<close> throws\<close>

text \<open>
  A run of \<open>getJsDocInfo\<close> is its outcome together with the indices at which it reads the
  array \<open>lines\<close>, in the order of the reads.
\<close>

type_synonym 'a traced = "int list \<times> (js_error + 'a)"

definition bindT :: "'a traced \<Rightarrow> ('a \<Rightarrow> 'b traced) \<Rightarrow> 'b traced" where
  "bindT m f =
     (case m of
        (t, Inl e) \<Rightarrow> (t, Inl e)
      | (t, Inr x) \<Rightarrow> (case f x of (t', r) \<Rightarrow> (t @ t', r)))"

text \<open>\<^verbatim>\<open>lines[j]\<close>: \<open>None\<close> is \<^verbatim>\<open>undefined\<close>, the value outside the array.\<close>

definition line_at :: "string list \<Rightarrow> int \<Rightarrow> string option" where
  "line_at ls j = (if 0 \<le> j \<and> j < int (length ls) then Some (ls ! nat j) else None)"

text \<open>\<^verbatim>\<open>r.test(x)\<close> converts its argument to a string.\<close>

definition test_js :: "re \<Rightarrow> string option \<Rightarrow> bool" where
  "test_js r x = test r (case x of None \<Rightarrow> ''undefined'' | Some l \<Rightarrow> l)"

text \<open>\<^verbatim>\<open>lines.slice(a, b)\<close>, and the indices it reads.\<close>

definition rel_index :: "string list \<Rightarrow> int \<Rightarrow> int" where
  "rel_index ls a = (if a < 0 then max (int (length ls) + a) 0 else min a (int (length ls)))"

definition js_slice :: "string list \<Rightarrow> int \<Rightarrow> int \<Rightarrow> string list" where
  "js_slice ls a b = take (nat (rel_index ls b - rel_index ls a)) (drop (nat (rel_index ls a)) ls)"

definition slice_reads :: "string list \<Rightarrow> int \<Rightarrow> int \<Rightarrow> int list" where
  "slice_reads ls a b = [rel_index ls a ..  rel_index ls b - 1]"

definition decorator_re :: re where  \<comment> \<open>\<^verbatim>\<open>/^\s*@[A-Z]\w+\s*[\({]/\<close>\<close>
  "decorator_re = cat [Bol, Star WS, C (Ch CHR ''@''), C (Rng CHR ''A'' CHR ''Z''), Plus Wd,
                       Star WS, C (one_of ''({'')]"

definition single_line_re :: re where  \<comment> \<open>\<^verbatim>\<open>/^\s*\/\*\*.*\*\/\s*$/\<close>\<close>
  "single_line_re = cat [Bol, Star WS, lit ''/**'', Star Dot, lit ''*/'', Star WS, Eoi]"

definition block_end_re :: re where  \<comment> \<open>\<^verbatim>\<open>/^\s*\*\/\s*$/\<close>\<close>
  "block_end_re = cat [Bol, Star WS, lit ''*/'', Star WS, Eoi]"

definition block_mid_re :: re where  \<comment> \<open>\<^verbatim>\<open>/^\s*\*\s*/\<close>\<close>
  "block_mid_re = cat [Bol, Star WS, C (Ch CHR ''*''), Star WS]"

definition jsdoc_start_re :: re where  \<comment> \<open>\<^verbatim>\<open>/^\s*\/\*\*/\<close>\<close>
  "jsdoc_start_re = cat [Bol, Star WS, lit ''/**'']"

definition comment_start_re :: re where  \<comment> \<open>\<^verbatim>\<open>/^\s*\/\*/\<close>\<close>
  "comment_start_re = cat [Bol, Star WS, lit ''/*'']"

definition closes_re :: re where  \<comment> \<open>\<^verbatim>\<open>/\*\/\s*$/\<close>\<close>
  "closes_re = cat [lit ''*/'', Star WS, Eoi]"

definition notfound :: jsdoc_info where
  "notfound = \<lparr>exists = False, isSingleLine = False, startIdx = - 1, endIdx = - 1, content = []\<rparr>"

text \<open>\<^verbatim>\<open>while (j >= 0 && lines[j].trim() === '') j--;\<close>\<close>

function skip_blank :: "string list \<Rightarrow> int \<Rightarrow> int traced" where
  "skip_blank ls j =
     (if 0 \<le> j then
        (case line_at ls j of
           None \<Rightarrow> ([j], Inl TypeError)
         | Some l \<Rightarrow>
             if trim l = [] then (case skip_blank ls (j - 1) of (t, r) \<Rightarrow> (j # t, r))
             else ([j], Inr j))
      else ([], Inr j))"
  by pat_completeness auto
termination
  by (relation "measure (\<lambda>(ls, j). nat (j + 1))") auto

declare skip_blank.simps [simp del]

text \<open>\<^verbatim>\<open>while (j >= 0 && /^\s*@[A-Z]\w+\s*[\({]/.test(lines[j])) j--;\<close>\<close>

function skip_decorators :: "string list \<Rightarrow> int \<Rightarrow> int traced" where
  "skip_decorators ls j =
     (if 0 \<le> j then
        (if test_js decorator_re (line_at ls j)
         then (case skip_decorators ls (j - 1) of (t, r) \<Rightarrow> (j # t, r))
         else ([j], Inr j))
      else ([], Inr j))"
  by pat_completeness auto
termination
  by (relation "measure (\<lambda>(ls, j). nat (j + 1))") auto

declare skip_decorators.simps [simp del]

text \<open>The walk back from a closing or middle line of a block, \<^verbatim>\<open>while (j >= 0) { ... j--; }\<close>.
  Each test reads \<^verbatim>\<open>lines[j]\<close> anew.\<close>

function walk_back :: "string list \<Rightarrow> int \<Rightarrow> int \<Rightarrow> jsdoc_info traced" where
  "walk_back ls end_idx j =
     (if 0 \<le> j then
        (if test_js jsdoc_start_re (line_at ls j)
         then (j # slice_reads ls j (end_idx + 1),
               Inr \<lparr>exists = True, isSingleLine = False, startIdx = j, endIdx = end_idx,
                    content = join_lines (js_slice ls j (end_idx + 1))\<rparr>)
         else if test_js comment_start_re (line_at ls j) \<and> \<not> test_js jsdoc_start_re (line_at ls j)
           then ([j, j, j], Inr notfound)
         else (case walk_back ls end_idx (j - 1) of (t, r) \<Rightarrow>
                 (j # j # (if test_js comment_start_re (line_at ls j) then [j] else []) @ t, r)))
      else ([], Inr notfound))"
  by pat_completeness auto
termination
  by (relation "measure (\<lambda>(ls, e, j). nat (j + 1))") auto

declare walk_back.simps [simp del]

text \<open>\<^verbatim>\<open>while (endIdx < lines.length && !/\*\/\s*$/.test(lines[endIdx])) endIdx++;\<close>\<close>

function scan_forward :: "string list \<Rightarrow> int \<Rightarrow> int list \<times> int" where
  "scan_forward ls end_idx =
     (if end_idx < int (length ls) then
        (if \<not> test_js closes_re (line_at ls end_idx)
         then (case scan_forward ls (end_idx + 1) of (t, e) \<Rightarrow> (end_idx # t, e))
         else ([end_idx], end_idx))
      else ([], end_idx))"
  by pat_completeness auto
termination
  by (relation "measure (\<lambda>(ls, e). nat (int (length ls) - e))") auto

declare scan_forward.simps [simp del]

text \<open>From \<^verbatim>\<open>const line = lines[j]\<close> on: the line the three loops stopped at decides.\<close>

definition classify :: "string list \<Rightarrow> int \<Rightarrow> jsdoc_info traced" where
  "classify ls j =
     (let line = line_at ls j in
      if test_js single_line_re line
        then ([j], Inr \<lparr>exists = True, isSingleLine = True, startIdx = j, endIdx = j,
                        content = (case line of None \<Rightarrow> ''undefined'' | Some l \<Rightarrow> l)\<rparr>)
      else if test_js block_end_re line \<or> test_js block_mid_re line
        then (case walk_back ls j j of (t, r) \<Rightarrow> (j # t, r))
      else if test_js jsdoc_start_re line
        then (if test_js single_line_re line
              then ([j], Inr \<lparr>exists = True, isSingleLine = True, startIdx = j, endIdx = j,
                              content = (case line of None \<Rightarrow> ''undefined'' | Some l \<Rightarrow> l)\<rparr>)
              else (case scan_forward ls j of (t, e) \<Rightarrow>
                      (j # t @ slice_reads ls j (e + 1),
                       Inr \<lparr>exists = True, isSingleLine = False, startIdx = j, endIdx = e,
                            content = join_lines (js_slice ls j (e + 1))\<rparr>)))
      else ([j], Inr notfound))"

definition getJsDocInfo :: "string list \<Rightarrow> int \<Rightarrow> jsdoc_info traced" where
  "getJsDocInfo ls index =
     bindT (skip_blank ls (index - 1)) (\<lambda>j.
     bindT (skip_decorators ls j) (\<lambda>j.
     bindT (skip_blank ls j) (\<lambda>j.
       if j < 0 then ([], Inr notfound) else classify ls j)))"


section \<open>Example files\<close>

text \<open>A one-line documentation block, then a two-line statement whose second line begins
  with \<^verbatim>\<open>*\<close>, then a method.\<close>

definition separated_block_file :: "string list" where
  "separated_block_file =
     [''/** Doc for total */'',
      ''const total = price'',
      ''  * quantity;'',
      ''private next(): number {'']"

text \<open>A plain comment, a blank line and a decorator above a method.\<close>

definition plain_comment_file :: "string list" where
  "plain_comment_file =
     [''  /* plain'',
      ''   * text'',
      ''   */'',
      '''',
      ''  @Input()'',
      ''  next(): number {'']"

text \<open>A one-line documentation block, a statement, a method.\<close>

definition statement_between_file :: "string list" where
  "statement_between_file =
     [''/** Doc for x */'',
      ''const x = 1;'',
      ''next(): number {'']"


section \<open>check-code-standards.js: extractParams\<close>

record param =
  name :: string
  type :: string

text \<open>
  \<^verbatim>\<open>line.match(/\(([^)]*)\)/)\<close>, the first group of the leftmost match: at an opening
  parenthesis the class \<^verbatim>\<open>[^)]*\<close> runs to the next closing parenthesis or to the end of
  the line, and only the first is a match.
\<close>

fun paren_group :: "string \<Rightarrow> string option" where
  "paren_group [] = None"
| "paren_group (c # cs) =
     (if c = CHR ''(''  \<and> dropWhile (\<lambda>d. d \<noteq> CHR '')'') cs \<noteq> []
      then Some (takeWhile (\<lambda>d. d \<noteq> CHR '')'') cs)
      else paren_group cs)"

text \<open>The loop \<^verbatim>\<open>for (const char of paramsStr)\<close> over the state \<open>(params, depth, current)\<close>.\<close>

fun split_loop :: "string \<Rightarrow> string list \<Rightarrow> int \<Rightarrow> string \<Rightarrow> string list \<times> string" where
  "split_loop [] params depth current = (params, current)"
| "split_loop (char # rest) params depth current =
     (if char = CHR ''<'' \<or> char = CHR ''('' \<or> char = CHR ''{''
        then split_loop rest params (depth + 1) (current @ [char])
      else if char = CHR ''>'' \<or> char = CHR '')'' \<or> char = CHR ''}''
        then split_loop rest params (depth - 1) (current @ [char])
      else if char = CHR '','' \<and> depth = 0
        then split_loop rest (if trim current \<noteq> [] then params @ [trim current] else params) depth []
      else split_loop rest params depth (current @ [char]))"


definition split_params :: "string \<Rightarrow> string list" where
  "split_params paramsStr =
     (case split_loop paramsStr [] 0 [] of
        (params, current) \<Rightarrow> if trim current \<noteq> [] then params @ [trim current] else params)"

text \<open>\<^verbatim>\<open>p.match(/\}\s*:\s*(\S+)/)\<close>, the first group of the leftmost match.\<close>

fun destruct_type :: "string \<Rightarrow> string option" where
  "destruct_type [] = None"
| "destruct_type (c # cs) =
     (if c = CHR ''}'' then
        (case dropWhile is_space cs of
           [] \<Rightarrow> destruct_type cs
         | d # ds \<Rightarrow>
             if d = CHR '':'' \<and> dropWhile is_space ds \<noteq> []
             then Some (takeWhile (\<lambda>x. \<not> is_space x) (dropWhile is_space ds))
             else destruct_type cs)
      else destruct_type cs)"

text \<open>\<^verbatim>\<open>.replace(/^\?/, '').replace(/\?$/, '')\<close>\<close>

definition strip_optional :: "string \<Rightarrow> string" where
  "strip_optional s =
     (let s1 = (if s \<noteq> [] \<and> hd s = CHR ''?'' then tl s else s)
      in if s1 \<noteq> [] \<and> last s1 = CHR ''?'' then butlast s1 else s1)"

definition parse_param :: "string \<Rightarrow> param" where
  "parse_param p =
     (if startsWith (trim p) ''{''
      then \<lparr>name = ''destructured'',
            type = (case destruct_type p of Some t \<Rightarrow> t | None \<Rightarrow> ''unknown'')\<rparr>
      else
        (let parts = split_on CHR '':'' p
         in \<lparr>name = strip_optional (trim (hd parts)),
              type = (case tl parts of
                        [] \<Rightarrow> ''unknown''
                      | p1 # _ \<Rightarrow> if p1 \<noteq> [] then trim (hd (split_on CHR ''='' p1))
                                  else ''unknown'')\<rparr>))"

definition extractParams :: "string \<Rightarrow> param list" where
  "extractParams line =
     (case paren_group line of
        None \<Rightarrow> []
      | Some g \<Rightarrow>
          if trim g = [] then []
          else filter (\<lambda>p. name p \<noteq> []) (map parse_param (split_params (trim g))))"


section \<open>generate-pr-comments.js: the changed line ranges\<close>

record line_range =
  start :: int
  end_line :: int   \<comment> \<open>the field \<^verbatim>\<open>end\<close>\<close>

text \<open>
  JavaScript's numbers are doubles: every integer from 0 to \<open>2^53\<close> is one of them, and
  a sum or a difference of two of them that lies in that range is exact. The model
  computes in that range only. \<^verbatim>\<open>parseInt\<close> on a non-empty string of decimal digits,
  which is what the groups of the hunk pattern hold, is the number that the digits
  write when it is at most \<open>2^53\<close>; for a larger one the code goes on with a rounded
  value and the model stops (\<open>None\<close>).
\<close>

definition parseInt :: "string \<Rightarrow> int option" where
  "parseInt s =
     (let n = foldl (\<lambda>n c. 10 * n + (int (of_char c) - 48)) 0 s
      in if n \<le> 2 ^ 53 then Some n else None)"

text \<open>
  \<^verbatim>\<open>/@@ -\d+(?:,\d+)? \+(\d+)(?:,(\d+))? @@/\<close> at the start of \<open>s\<close>, with its groups 1 and 2.
  After a run of digits the pattern goes on with a comma or a space, so every \<^verbatim>\<open>\d+\<close>
  is the whole run and an optional count is taken whenever a comma and a digit follow.
\<close>

definition skip_count :: "string \<Rightarrow> (string option \<times> string)" where
  "skip_count s =
     (case s of
        [] \<Rightarrow> (None, s)
      | c # cs \<Rightarrow>
          if c = CHR '','' \<and> takeWhile is_digit cs \<noteq> []
          then (Some (takeWhile is_digit cs), dropWhile is_digit cs)
          else (None, s))"

definition hunk_at :: "string \<Rightarrow> (string \<times> string option) option" where
  "hunk_at s =
     (if startsWith s ''@@ -'' \<and> takeWhile is_digit (drop 4 s) \<noteq> [] then
        (case skip_count (dropWhile is_digit (drop 4 s)) of (oldCount, s1) \<Rightarrow>
           if startsWith s1 '' +'' \<and> takeWhile is_digit (drop 2 s1) \<noteq> [] then
             (case skip_count (dropWhile is_digit (drop 2 s1)) of (newCount, s2) \<Rightarrow>
                if startsWith s2 '' @@''
                then Some (takeWhile is_digit (drop 2 s1), newCount)
                else None)
           else None)
      else None)"

text \<open>\<^verbatim>\<open>line.match(...)\<close>: the leftmost position with a match.\<close>

fun hunk_match :: "string \<Rightarrow> (string \<times> string option) option" where
  "hunk_match [] = None"
| "hunk_match (c # cs) =
     (case hunk_at (c # cs) of Some m \<Rightarrow> Some m | None \<Rightarrow> hunk_match cs)"

text \<open>\<^verbatim>\<open>parseInt(hunkMatch[2]) || 1\<close>: a missing group gives NaN, and NaN and 0 are falsy.\<close>

definition count_or_1 :: "string option \<Rightarrow> int option" where
  "count_or_1 g =
     (case g of
        None \<Rightarrow> Some 1
      | Some d \<Rightarrow> (case parseInt d of None \<Rightarrow> None | Some n \<Rightarrow> Some (if n = 0 then 1 else n)))"

text \<open>\<^verbatim>\<open>{ start: currentLine, end: currentLine + count - 1 }\<close>: the sum, then the
  difference; the model stops when the sum is above \<open>2^53\<close>.\<close>

definition hunk_range :: "int \<Rightarrow> int \<Rightarrow> line_range option" where
  "hunk_range currentLine count =
     (if currentLine + count \<le> 2 ^ 53
      then Some \<lparr>start = currentLine, end_line = currentLine + count - 1\<rparr>
      else None)"

text \<open>
  The loop \<^verbatim>\<open>for (const line of lines)\<close> over the state \<open>(ranges, currentLine)\<close>; \<open>None\<close>
  when a number of a hunk header is outside the range of the model. \<^verbatim>\<open>currentLine++\<close>
  adds 1 below \<open>2^53\<close>, and at \<open>2^53\<close> the sum is rounded back to \<open>2^53\<close>.
\<close>

fun ranges_loop :: "string list \<Rightarrow> line_range list \<Rightarrow> int \<Rightarrow> line_range list option" where
  "ranges_loop [] ranges currentLine = Some ranges"
| "ranges_loop (line # rest) ranges currentLine =
     (case hunk_match line of
        Some (g1, g2) \<Rightarrow>
          (case parseInt g1 of
             None \<Rightarrow> None
           | Some newStart \<Rightarrow>
               (case count_or_1 g2 of
                  None \<Rightarrow> None
                | Some count \<Rightarrow>
                    (case hunk_range newStart count of
                       None \<Rightarrow> None
                     | Some hunk \<Rightarrow> ranges_loop rest (ranges @ [hunk]) newStart)))
      | None \<Rightarrow>
          if \<not> startsWith line ''-'' \<and> \<not> startsWith line [CHR 0x5C] \<and> \<not> startsWith line ''+++''
          then ranges_loop rest ranges (if currentLine < 2 ^ 53 then currentLine + 1 else currentLine)
          else ranges_loop rest ranges currentLine)"

text \<open>
  \<open>git_diff file\<close> is the outcome of \<^verbatim>\<open>execSync(`git diff -U0 ${baseRef}...HEAD -- "${file}"`)\<close>:
  the text of the diff, or an exception. The \<^verbatim>\<open>catch\<close> turns the exception into no range.
  \<open>None\<close> is a run outside the model, as in \<open>ranges_loop\<close>.
\<close>

definition getChangedLineRanges ::
  "(string \<Rightarrow> js_error + string) \<Rightarrow> string \<Rightarrow> line_range list option" where
  "getChangedLineRanges git_diff file =
     (case git_diff file of
        Inl error \<Rightarrow> Some []
      | Inr diffOutput \<Rightarrow> ranges_loop (split_on CHR 0x0A diffOutput) [] 0)"

definition isLineChanged :: "int \<Rightarrow> line_range list \<Rightarrow> bool" where
  "isLineChanged lineNum changedRanges =
     list_ex (\<lambda>range. lineNum \<ge> start range \<and> lineNum \<le> end_line range) changedRanges"

text \<open>
  In \<open>isNearChangedLine\<close> the sum \<^verbatim>\<open>range.end + 5\<close> can lie above \<open>2^53\<close>, by 4 at most,
  where the code rounds it to a number that is at least \<open>2^53\<close>. The comparison with a line
  number of a file, which is below \<open>2^32\<close>, is true for the rounded and for the exact sum.
\<close>

definition isNearChangedLine :: "int \<Rightarrow> line_range list \<Rightarrow> bool" where
  "isNearChangedLine lineNum changedRanges =
     list_ex (\<lambda>range. lineNum \<ge> start range \<and> lineNum \<le> end_line range + 5) changedRanges"


section \<open>check-code-standards.js: the tags of a block\<close>

definition returns_re :: re where  \<comment> \<open>\<^verbatim>\<open>/@returns?\s|\@returns?\s*$/m\<close>\<close>
  "returns_re = Alt (cat [lit ''@return'', Opt (C (Ch CHR ''s'')), C WS])
                    (cat [lit ''@return'', Opt (C (Ch CHR ''s'')), Star WS, EolM])"

definition hasReturnsTag :: "string \<Rightarrow> bool" where
  "hasReturnsTag jsDocContent = test returns_re jsDocContent"

text \<open>
  The suffixes of \<open>s\<close> after a run of white space at its start, the longest run first: the
  order in which a greedy \<^verbatim>\<open>\s*\<close> tries them.
\<close>

fun ws_drops :: "string \<Rightarrow> string list" where
  "ws_drops [] = [[]]"
| "ws_drops (c # cs) = (if is_space c then ws_drops cs @ [c # cs] else [c # cs])"

text \<open>\<^verbatim>\<open>\{[^}]*\}\<close> at the start of \<open>s\<close>: the text matched and the rest. The class runs to
  the next closing brace.\<close>

definition brace_group :: "string \<Rightarrow> (string \<times> string) option" where
  "brace_group s =
     (case s of
        [] \<Rightarrow> None
      | c # cs \<Rightarrow>
          if c = CHR ''{'' \<and> dropWhile (\<lambda>d. d \<noteq> CHR ''}'') cs \<noteq> []
          then Some (c # takeWhile (\<lambda>d. d \<noteq> CHR ''}'') cs @ ''}'',
                     tl (dropWhile (\<lambda>d. d \<noteq> CHR ''}'') cs))
          else None)"

text \<open>
  \<^verbatim>\<open>new RegExp(`@param\\s+(\\{[^}]*\\})?\\s*\\[?${param.name}\\]?[\\s\\-]`, 'i')\<close>. The name is
  spliced into the source of the pattern; the model covers the names without a character
  that is special in a pattern, which stand for themselves.
\<close>

definition regex_literal :: "string \<Rightarrow> bool" where
  "regex_literal n =
     (\<forall>c \<in> set n. c \<notin> set (CHR 0x5C # ''^$.|?*+()[]{}''))"

definition param_tail_re :: "string \<Rightarrow> re" where  \<comment> \<open>\<^verbatim>\<open>\s*\[?NAME\]?[\s\-]\<close>, flag i\<close>
  "param_tail_re n = cat [Star WS, Opt (C (Ch CHR ''['')), lit_ci n, Opt (C (Ch CHR '']'')),
                          C (Or WS (Ch CHR ''-''))]"

text \<open>
  After \<^verbatim>\<open>@param\<close> and each run of white space that \<^verbatim>\<open>\s+\<close> may take, the longest
  first: the pattern with the group, then without it. The result is group 1 of the first
  way that matches (\<open>None\<close> inside: the group took no part).
\<close>

fun try_splits :: "string \<Rightarrow> string list \<Rightarrow> string option option" where
  "try_splits n [] = None"
| "try_splits n (s # rest) =
     (case brace_group s of
        Some (g, s') \<Rightarrow>
          if rmatch [param_tail_re n] None s' then Some (Some g)
          else if rmatch [param_tail_re n] None s then Some None
          else try_splits n rest
      | None \<Rightarrow>
          if rmatch [param_tail_re n] None s then Some None else try_splits n rest)"

definition param_at :: "string \<Rightarrow> string \<Rightarrow> string option option" where
  "param_at n s =
     (if startsWith_ci s ''@param''
      then try_splits n (butlast (ws_drops (drop 6 s)))
      else None)"

text \<open>\<^verbatim>\<open>jsDocContent.match(paramNameRegex)\<close>: the leftmost position with a match.\<close>

fun param_search :: "string \<Rightarrow> string \<Rightarrow> string option option" where
  "param_search n [] = None"
| "param_search n (c # cs) =
     (case param_at n (c # cs) of Some g \<Rightarrow> Some g | None \<Rightarrow> param_search n cs)"

text \<open>
  \<^verbatim>\<open>/@param\s*(?:\{[^}]*\})?\s*\[?(\w+)\]?/g\<close> at the start of \<open>s\<close>. \<open>name_starts\<close> lists,
  in the order the matcher tries them, the places where \<^verbatim>\<open>(\w+)\<close> may start; the first
  one with a word character there is the match, group 1 is the whole run of word
  characters, and a closing bracket after it belongs to the match. The result is the
  group and the length of the match.
\<close>

definition name_starts :: "string \<Rightarrow> string list" where
  "name_starts s =
     concat (map (\<lambda>s2.
       concat (map (\<lambda>s3.
         concat (map (\<lambda>s4. (case s4 of
                                [] \<Rightarrow> [s4]
                              | c # cs \<Rightarrow> if c = CHR ''['' then [cs, s4] else [s4]))
                     (ws_drops s3)))
         (case brace_group s2 of Some (g, s') \<Rightarrow> [s', s2] | None \<Rightarrow> [s2])))
       (ws_drops (drop 6 s)))"

definition tag_at :: "string \<Rightarrow> (string \<times> nat) option" where
  "tag_at s =
     (if startsWith s ''@param'' then
        (case filter (\<lambda>s5. takeWhile is_word s5 \<noteq> []) (name_starts s) of
           [] \<Rightarrow> None
         | s5 # _ \<Rightarrow>
             (let after = dropWhile is_word s5;
                  after = (if startsWith after '']'' then tl after else after)
              in Some (takeWhile is_word s5, length s - length after)))
      else None)"

text \<open>\<^verbatim>\<open>[...jsDocContent.matchAll(...)].map(m => m[1])\<close>: the matches from left to right,
  each search starting where the match before ended; \<open>skip\<close> counts the characters of
  that match still to pass.\<close>

fun all_tags :: "nat \<Rightarrow> string \<Rightarrow> string list" where
  "all_tags skip [] = []"
| "all_tags (Suc skip) (c # cs) = all_tags skip cs"
| "all_tags 0 (c # cs) =
     (case tag_at (c # cs) of
        Some (w, len) \<Rightarrow> w # all_tags (len - 1) cs
      | None \<Rightarrow> all_tags 0 cs)"

record params_result =
  params_valid :: bool   \<comment> \<open>the field \<^verbatim>\<open>valid\<close>\<close>
  errors :: "string list"

text \<open>The first loop of \<open>checkParamTags\<close>, \<^verbatim>\<open>for (const param of params)\<close>.\<close>

fun param_errors :: "string \<Rightarrow> param list \<Rightarrow> string list" where
  "param_errors jsDocContent [] = []"
| "param_errors jsDocContent (param # rest) =
     (if name param = ''destructured'' then param_errors jsDocContent rest
      else
        (case param_search (name param) jsDocContent of
           None \<Rightarrow> (''Missing @param for '' @ [CHR 0x27] @ name param @ [CHR 0x27])
                     # param_errors jsDocContent rest
         | Some paramMatch1 \<Rightarrow>
             (if (case paramMatch1 of None \<Rightarrow> False | Some g \<Rightarrow> length g > 2)
              then param_errors jsDocContent rest
              else (''@param '' @ name param @ '' missing {Type} in curly braces'')
                     # param_errors jsDocContent rest)))"

text \<open>\<open>None\<close>: a name holds a character that is special in a pattern, and the run is
  outside the model.\<close>

definition checkParamTags :: "string \<Rightarrow> param list \<Rightarrow> params_result option" where
  "checkParamTags jsDocContent params =
     (if params = [] then Some \<lparr>params_valid = True, errors = []\<rparr>
      else if \<not> (\<forall>p \<in> set params. name p = ''destructured'' \<or> regex_literal (name p)) then None
      else
        (let jsDocParamNames = all_tags 0 jsDocContent;
             actualParamNames = map name (filter (\<lambda>p. name p \<noteq> ''destructured'') params);
             errors = param_errors jsDocContent params
                      @ map (\<lambda>docParam. ''Extra @param '' @ [CHR 0x27] @ docParam @ [CHR 0x27]
                                @ '' in JSDoc doesn'' @ [CHR 0x27] @ ''t match any function parameter'')
                            (filter (\<lambda>docParam. docParam \<notin> set actualParamNames) jsDocParamNames)
         in Some \<lparr>params_valid = (errors = []), errors = errors\<rparr>))"




section \<open>post-pr-review.js: postReview\<close>

text \<open>A violation as the scanner writes it, \<^verbatim>\<open>{path, line, body}\<close>; the type of the body is
  left open.\<close>

record 'b comment =
  path :: string
  line_number :: int   \<comment> \<open>the field \<^verbatim>\<open>line\<close>\<close>
  body :: 'b

record 'b review_comment = "'b comment" +
  side :: string

record gh_context =
  owner :: string      \<comment> \<open>\<^verbatim>\<open>context.repo.owner\<close>\<close>
  repo :: string       \<comment> \<open>\<^verbatim>\<open>context.repo.repo\<close>\<close>
  number :: int        \<comment> \<open>\<^verbatim>\<open>context.issue.number\<close>\<close>

text \<open>
  The two requests to the review API. The texts of their bodies are fixed but for the
  number of violations, \<^verbatim>\<open>comments.length\<close>, which is kept.
\<close>

datatype 'b api_call =
    CreateReview string string int nat string "'b review_comment list"
      \<comment> \<open>owner, repo, pull_number, the number in the body, event, comments\<close>
  | CreateComment string string int nat
      \<comment> \<open>owner, repo, issue_number, the number in the body\<close>

datatype outcome = Resolved | Rejected

text \<open>
  \<open>parsed\<close> is the outcome of the first \<^verbatim>\<open>try\<close> block, which reads
  \<^verbatim>\<open>violations.json\<close> and parses the array in it: the violations, or an exception, which
  the \<^verbatim>\<open>catch\<close> turns into no violation. \<open>createReview\<close> and \<open>createComment\<close> say whether
  the request of that name succeeds. The result is the requests made, in order, and
  whether the promise resolves.
\<close>

definition postReview ::
  "('b api_call \<Rightarrow> bool) \<Rightarrow> ('b api_call \<Rightarrow> bool) \<Rightarrow> gh_context \<Rightarrow> (js_error + 'b comment list)
     \<Rightarrow> 'b api_call list \<times> outcome" where
  "postReview createReview createComment context parsed =
     (let comments = (case parsed of Inl error \<Rightarrow> [] | Inr cs \<Rightarrow> cs) in
      if length comments > 0 then
        (let reviewComments =
               map (\<lambda>c. \<lparr>path = path c, line_number = line_number c, body = body c,
                          side = ''RIGHT''\<rparr>) comments;
             review = CreateReview (owner context) (repo context) (number context)
                        (length comments) ''REQUEST_CHANGES'' (take 30 reviewComments)
         in if createReview review then ([review], Resolved)
            else
              (let summary = CreateComment (owner context) (repo context) (number context)
                               (length comments)
               in if createComment summary then ([review, summary], Resolved)
                  else ([review, summary], Rejected)))
      else ([], Resolved))"


section \<open>Runs that push results and may throw\<close>

text \<open>
  A piece of a scanner pushes results on a list and either finishes or throws; \<open>Threw\<close>
  keeps what was pushed before the exception. \<open>Unmodelled\<close> marks a run that builds a
  pattern from a parameter name with a special character.
\<close>

datatype 'a run = Done "'a list" | Threw "'a list" js_error | Unmodelled

fun seq :: "'a run \<Rightarrow> 'a run \<Rightarrow> 'a run" where
  "seq (Done xs) (Done ys) = Done (xs @ ys)"
| "seq (Done xs) (Threw ys e) = Threw (xs @ ys) e"
| "seq (Done xs) Unmodelled = Unmodelled"
| "seq (Threw xs e) r = Threw xs e"
| "seq Unmodelled r = Unmodelled"

text \<open>A loop over the lines of a file with their indices, \<^verbatim>\<open>lines.forEach((line, index) => ...)\<close>
  or \<^verbatim>\<open>for (let i = 0; i < lines.length; i++)\<close>.\<close>

fun run_lines :: "(string \<Rightarrow> int \<Rightarrow> 'a run) \<Rightarrow> string list \<Rightarrow> int \<Rightarrow> 'a run" where
  "run_lines f [] i = Done []"
| "run_lines f (l # ls) i = seq (f l i) (run_lines f ls (i + 1))"


section \<open>The patterns of declarations\<close>

definition blank_tab :: cls where  \<comment> \<open>\<^verbatim>\<open>[ \t]\<close>\<close>
  "blank_tab = Or (Ch CHR '' '') (Ch (CHR 0x09))"

definition visibility :: re where  \<comment> \<open>\<^verbatim>\<open>(public|private|protected)\<close>\<close>
  "visibility = alts [lit ''public'', lit ''private'', lit ''protected'']"

definition type_chars :: cls where  \<comment> \<open>\<^verbatim>\<open>[A-Za-z0-9_[\]|<>]\<close>\<close>
  "type_chars = Or Wd (one_of ''[]|<>'')"

definition methodRegex :: re where
  \<comment> \<open>\<^verbatim>\<open>/^[ \t]*(public|private|protected)?[ \t]*[a-zA-Z0-9_]+\s*\([^)]*\)\s*:\s*[A-Za-z0-9_[\]|<>]+[ \t]*\{/\<close>\<close>
  "methodRegex = cat [Bol, Star blank_tab, Opt visibility, Star blank_tab, Plus Wd, Star WS,
                      C (Ch CHR ''(''), Star (Not (Ch CHR '')'')), C (Ch CHR '')''), Star WS,
                      C (Ch CHR '':''), Star WS, Plus type_chars, Star blank_tab, C (Ch CHR ''{'')]"

definition return_type_re :: re where  \<comment> \<open>\<^verbatim>\<open>/:\s*[A-Za-z0-9_[\]|<>]+/\<close>\<close>
  "return_type_re = cat [C (Ch CHR '':''), Star WS, Plus type_chars]"

definition has_access_re :: re where  \<comment> \<open>\<^verbatim>\<open>/(public|private|protected)/\<close>\<close>
  "has_access_re = visibility"

definition ident_start :: cls where  \<comment> \<open>\<^verbatim>\<open>[a-zA-Z_$]\<close>\<close>
  "ident_start = Or (Rng CHR ''a'' CHR ''z'') (Or (Rng CHR ''A'' CHR ''Z'') (one_of ''_$''))"

definition ident_char :: cls where  \<comment> \<open>\<^verbatim>\<open>[a-zA-Z0-9_$]\<close>\<close>
  "ident_char = Or Wd (Ch CHR ''$'')"

text \<open>
  The five property patterns of check-code-standards.js,
  \<^verbatim>\<open>/^[ \t]*(public|private|protected)[ \t]+(readonly[ \t]+)?[a-zA-Z_$][a-zA-Z0-9_$]*\s*=\s*computed\s*[<(]/\<close>
  and its siblings: \<open>ro\<close> says whether \<^verbatim>\<open>(readonly[ \t]+)?\<close> is in the pattern, \<open>req\<close> whether
  \<^verbatim>\<open>(\.required)?\<close> follows the name of the factory.
\<close>

definition property_re :: "bool \<Rightarrow> string \<Rightarrow> bool \<Rightarrow> re" where
  "property_re ro factory req =
     cat [Bol, Star blank_tab, visibility, Plus blank_tab,
          (if ro then Opt (cat [lit ''readonly'', Plus blank_tab]) else Eps),
          C ident_start, Star ident_char, Star WS, C (Ch CHR ''=''), Star WS, lit factory,
          (if req then Opt (lit ''.required'') else Eps), Star WS, C (one_of ''<('')]"

definition computedRegex :: re where
  "computedRegex = property_re True ''computed'' False"

definition signalRegex :: re where
  "signalRegex = property_re True ''signal'' False"

definition inputRegex :: re where
  "inputRegex = property_re False ''input'' True"

definition outputRegex :: re where
  "outputRegex = property_re False ''output'' False"

definition viewChildRegex :: re where
  "viewChildRegex = property_re True ''viewChild'' True"


section \<open>check-code-standards.js: checkFile and the command line\<close>

record violation =
  v_file :: string      \<comment> \<open>the field \<^verbatim>\<open>file\<close>\<close>
  v_line :: int         \<comment> \<open>the field \<^verbatim>\<open>line\<close>\<close>
  v_message :: string   \<comment> \<open>the field \<^verbatim>\<open>message\<close>\<close>

text \<open>The block \<^verbatim>\<open>if (methodRegex.test(line)) { ... }\<close> of the loop.\<close>

definition method_violations :: "string \<Rightarrow> string list \<Rightarrow> string \<Rightarrow> int \<Rightarrow> violation run" where
  "method_violations file lines line i =
     (let addViolation = (\<lambda>msg. \<lparr>v_file = file, v_line = i + 1, v_message = msg\<rparr>) in
      if test methodRegex line then
        (case snd (getJsDocInfo lines i) of
           Inl e \<Rightarrow> Threw [] e
         | Inr jsDocInfo \<Rightarrow>
             (let actualModifier = getAccessModifier line;
                  hasAccess = (actualModifier \<noteq> None);
                  hasReturnType = test return_type_re line
              in seq
                  (if \<not> exists jsDocInfo
                   then Done [addViolation ''Missing JSDoc above method'']
                   else
                     seq (Done (if \<not> hasReturnsTag (content jsDocInfo)
                                then [addViolation ''Missing @returns in JSDoc''] else []))
                    (seq (let accessCheck = checkAccessModifierTag (content jsDocInfo) actualModifier
                          in Done (if \<not> valid accessCheck
                                   then [addViolation (message accessCheck)] else []))
                         (case checkParamTags (content jsDocInfo) (extractParams line) of
                            None \<Rightarrow> Unmodelled
                          | Some paramCheck \<Rightarrow>
                              Done (if \<not> params_valid paramCheck
                                    then map addViolation (errors paramCheck) else []))))
                  (Done ((if \<not> hasAccess
                          then [addViolation ''Missing access modifier on method''] else [])
                         @ (if \<not> hasReturnType then [addViolation ''Missing return type''] else [])))))
      else Done [])"

text \<open>
  The five blocks \<^verbatim>\<open>if (computedRegex.test(line)) { ... }\<close> and so on differ in the pattern
  and in two words: \<open>what\<close> as in "Missing JSDoc above computed property" and \<open>propertyType\<close>
  as passed to \<open>checkSingleLineJsDoc\<close>.
\<close>

definition property_violations ::
  "re \<Rightarrow> string \<Rightarrow> string \<Rightarrow> string \<Rightarrow> string list \<Rightarrow> string \<Rightarrow> int \<Rightarrow> violation run" where
  "property_violations regex what propertyType file lines line i =
     (let addViolation = (\<lambda>msg. \<lparr>v_file = file, v_line = i + 1, v_message = msg\<rparr>) in
      if test regex line then
        (case snd (getJsDocInfo lines i) of
           Inl e \<Rightarrow> Threw [] e
         | Inr jsDocInfo \<Rightarrow>
             (let hasAccess = test has_access_re line
              in Done ((if \<not> exists jsDocInfo
                        then [addViolation (''Missing JSDoc above '' @ what)]
                        else map addViolation (checkSingleLineJsDoc jsDocInfo propertyType))
                       @ (if \<not> hasAccess
                          then [addViolation (''Missing access modifier on '' @ what)] else []))))
      else Done [])"

definition check_line :: "string \<Rightarrow> string list \<Rightarrow> string \<Rightarrow> int \<Rightarrow> violation run" where
  "check_line file lines line i =
     seq (method_violations file lines line i)
    (seq (property_violations computedRegex ''computed property'' ''Computed property'' file lines line i)
    (seq (property_violations signalRegex ''signal'' ''Signal'' file lines line i)
    (seq (property_violations inputRegex ''input'' ''Input'' file lines line i)
    (seq (property_violations outputRegex ''output'' ''Output'' file lines line i)
         (property_violations viewChildRegex ''viewChild'' ''ViewChild'' file lines line i)))))"

text \<open>
  \<open>fs file\<close> is the outcome of \<^verbatim>\<open>fs.readFileSync(file, 'utf-8')\<close>: the text or an exception.
  \<open>checkFile\<close> has no \<^verbatim>\<open>try\<close>: the exception leaves it.
\<close>

definition checkFile :: "(string \<Rightarrow> js_error + string) \<Rightarrow> string \<Rightarrow> violation run" where
  "checkFile fs file =
     (case fs file of
        Inl e \<Rightarrow> Threw [] e
      | Inr text \<Rightarrow>
          (let lines = split_on CHR 0x0A text in run_lines (check_line file lines) lines 0))"

text \<open>The command line, \<^verbatim>\<open>files.forEach(file => { const result = checkFile(file, true); ... })\<close>:
  an exception of \<open>checkFile\<close> leaves the loop and ends the process.\<close>

fun check_files :: "(string \<Rightarrow> js_error + string) \<Rightarrow> string list \<Rightarrow> violation run" where
  "check_files fs [] = Done []"
| "check_files fs (file # files) = seq (checkFile fs file) (check_files fs files)"


section \<open>generate-pr-comments.js: checkTypeScriptFile and the main loop\<close>

text \<open>
  The bodies of the review comments are fixed texts with symbols outside ASCII; each text
  is a constructor here, with the part that varies as its argument.
\<close>

datatype body =
    ConsoleLogBody          \<comment> \<open>"Code Standard Violation: console.log() should not be in production code ..."\<close>
  | DebuggerBody            \<comment> \<open>"Critical: debugger statement must be removed before merge."\<close>
  | TodoBody                \<comment> \<open>"TODO: Track in issue tracker or resolve before merge."\<close>
  | FixmeBody               \<comment> \<open>"FIXME: This issue needs to be resolved before merge."\<close>
  | MissingJsDocBody        \<comment> \<open>"Missing JSDoc: Public functions need documentation ..."\<close>
  | MissingReturnsBody      \<comment> \<open>"JSDoc Standard: Missing @returns tag in JSDoc."\<close>
  | JsDocStandardBody string  \<comment> \<open>"JSDoc Standard: " followed by the message\<close>
  | MissingReturnTypeBody   \<comment> \<open>"Code Standard: Method missing return type annotation."\<close>
  | CssBody string string string
      \<comment> \<open>severity, message, tailwind: "Error" or "CSS Standard", the message, the suggestion\<close>
  | MethodMissingJsDocBody  \<comment> \<open>part_001: "Missing JSDoc: Methods require proper JSDoc documentation ..."\<close>
  | MethodMissingReturnsBody  \<comment> \<open>part_001: "JSDoc Standard: Missing @returns tag describing the return value."\<close>
  | MethodMissingAccessBody   \<comment> \<open>part_001: "Code Standard: Method missing access modifier ..."\<close>
  | MethodMissingReturnTypeBody  \<comment> \<open>part_001: "Code Standard: Method missing explicit return type annotation."\<close>
  | PropertyMissingJsDocBody string  \<comment> \<open>part_001: "Missing JSDoc: X requires single-line JSDoc ..."\<close>
  | PropertyMultiLineBody string     \<comment> \<open>part_001: "JSDoc Standard: X should have single-line JSDoc, not multi-line."\<close>
  | PropertyEmptyBody                \<comment> \<open>part_001: "JSDoc Standard: JSDoc is empty - add a description."\<close>
  | PropertyMissingAccessBody string \<comment> \<open>part_001: "Code Standard: X missing access modifier ..."\<close>
  | CssLabelBody string string       \<comment> \<open>part_001: label and message\<close>

definition angular_reactive_re :: re where
  \<comment> \<open>\<^verbatim>\<open>/=\s*(computed|signal|input|output|viewChild)\s*[<(]/\<close>\<close>
  "angular_reactive_re =
     cat [C (Ch CHR ''=''), Star WS,
          alts [lit ''computed'', lit ''signal'', lit ''input'', lit ''output'', lit ''viewChild''],
          Star WS, C (one_of ''<('')]"

text \<open>The four substring checks, in the order of the source.\<close>

definition marker_comments :: "string \<Rightarrow> string \<Rightarrow> int \<Rightarrow> body comment list" where
  "marker_comments file line lineNum =
     (if includes_str line ''console.log''
      then [\<lparr>path = file, line_number = lineNum, body = ConsoleLogBody\<rparr>] else [])
     @ (if includes_str line ''debugger''
        then [\<lparr>path = file, line_number = lineNum, body = DebuggerBody\<rparr>] else [])
     @ (if includes_str line ''TODO''
        then [\<lparr>path = file, line_number = lineNum, body = TodoBody\<rparr>] else [])
     @ (if includes_str line ''FIXME''
        then [\<lparr>path = file, line_number = lineNum, body = FixmeBody\<rparr>] else [])"

text \<open>
  The callback of \<^verbatim>\<open>lines.forEach\<close> in \<open>checkTypeScriptFile\<close>. Its first statement,
  \<^verbatim>\<open>if (!isLineChanged(lineNum, changedRanges)) return;\<close>, ends the callback for a line
  outside the ranges, before the method check and its test \<open>isNearChangedLine\<close>.
\<close>

definition ts_line :: "string \<Rightarrow> line_range list \<Rightarrow> string list \<Rightarrow> string \<Rightarrow> int \<Rightarrow> body comment run" where
  "ts_line file changedRanges lines line index =
     (let lineNum = index + 1;
          push = (\<lambda>b. \<lparr>path = file, line_number = lineNum, body = b\<rparr>) in
      if \<not> isLineChanged lineNum changedRanges then Done []
      else
        seq (Done (marker_comments file line lineNum))
          (let isAngularReactive = test angular_reactive_re line in
           if test methodRegex line \<and> \<not> isAngularReactive \<and> isNearChangedLine lineNum changedRanges
           then
             (case snd (getJsDocInfo lines index) of
                Inl e \<Rightarrow> Threw [] e
              | Inr jsDocInfo \<Rightarrow>
                  seq
                    (if \<not> exists jsDocInfo then Done [push MissingJsDocBody]
                     else
                       seq (Done (if \<not> hasReturnsTag (content jsDocInfo) \<and> \<not> includes_str line '': void''
                                  then [push MissingReturnsBody] else []))
                      (seq (let actualModifier = getAccessModifier line;
                                accessCheck = checkAccessModifierTag (content jsDocInfo) actualModifier
                            in Done (if \<not> valid accessCheck
                                     then [push (JsDocStandardBody (message accessCheck))] else []))
                           (case checkParamTags (content jsDocInfo) (extractParams line) of
                              None \<Rightarrow> Unmodelled
                            | Some paramCheck \<Rightarrow>
                                Done (if \<not> params_valid paramCheck
                                      then map (\<lambda>err. push (JsDocStandardBody err)) (errors paramCheck)
                                      else []))))
                    (let actualModifier = getAccessModifier line in
                     Done (if actualModifier \<noteq> None \<and> actualModifier \<noteq> Some []
                              \<and> \<not> test return_type_re line
                           then [push MissingReturnTypeBody] else [])))
           else Done []))"

text \<open>The \<^verbatim>\<open>try\<close> around the read and the loop: after an exception the comments pushed so
  far are returned. \<open>None\<close> is a run outside the model.\<close>

definition checkTypeScriptFile ::
  "(string \<Rightarrow> js_error + string) \<Rightarrow> string \<Rightarrow> line_range list \<Rightarrow> body comment list option" where
  "checkTypeScriptFile fs file changedRanges =
     (case fs file of
        Inl error \<Rightarrow> Some []
      | Inr text \<Rightarrow>
          (let lines = split_on CHR 0x0A text in
           case run_lines (ts_line file changedRanges lines) lines 0 of
             Done comments \<Rightarrow> Some comments
           | Threw comments error \<Rightarrow> Some comments
           | Unmodelled \<Rightarrow> None))"

text \<open>
  \<open>checkCSSFile\<close> filters the violations of \<^verbatim>\<open>checkCSSFileForTailwind\<close>, of
  check-tailwind-standards.js; that function catches the failure of its own read and is a
  parameter here, \<open>css\<close>.
\<close>

record css_violation =
  css_line :: int          \<comment> \<open>the field \<^verbatim>\<open>line\<close>\<close>
  severity :: string
  css_message :: string    \<comment> \<open>the field \<^verbatim>\<open>message\<close>\<close>
  tailwind :: string

definition checkCSSFile ::
  "(string \<Rightarrow> css_violation list) \<Rightarrow> string \<Rightarrow> line_range list \<Rightarrow> body comment list" where
  "checkCSSFile css file changedRanges =
     map (\<lambda>violation.
            \<lparr>path = file, line_number = css_line violation,
             body = CssBody (if severity violation = ''error'' then ''Error'' else ''CSS Standard'')
                            (css_message violation) (tailwind violation)\<rparr>)
         (filter (\<lambda>violation. isLineChanged (css_line violation) changedRanges) (css file))"

text \<open>The two loops of the main program over \<^verbatim>\<open>changedFilesOutput\<close>, the names that
  \<^verbatim>\<open>git diff --name-only\<close> printed.\<close>

fun ts_loop ::
  "(string \<Rightarrow> js_error + string) \<Rightarrow> (string \<Rightarrow> js_error + string) \<Rightarrow> string list
     \<Rightarrow> body comment list option" where
  "ts_loop fs git_diff [] = Some []"
| "ts_loop fs git_diff (file # files) =
     (if \<not> endsWith file ''.ts'' \<or> endsWith file ''.spec.ts'' \<or> endsWith file ''.stories.ts''
      then ts_loop fs git_diff files
      else
        (case getChangedLineRanges git_diff file of
           None \<Rightarrow> None
         | Some ranges \<Rightarrow>
             if length ranges = 0 then ts_loop fs git_diff files
             else
               (case checkTypeScriptFile fs file ranges of
                  None \<Rightarrow> None
                | Some comments \<Rightarrow>
                    (case ts_loop fs git_diff files of
                       None \<Rightarrow> None
                     | Some others \<Rightarrow> Some (comments @ others)))))"

fun css_loop ::
  "(string \<Rightarrow> css_violation list) \<Rightarrow> (string \<Rightarrow> js_error + string) \<Rightarrow> string list
     \<Rightarrow> body comment list option" where
  "css_loop css git_diff [] = Some []"
| "css_loop css git_diff (file # files) =
     (if \<not> endsWith file ''.css'' then css_loop css git_diff files
      else
        (case getChangedLineRanges git_diff file of
           None \<Rightarrow> None
         | Some ranges \<Rightarrow>
             if length ranges = 0 then css_loop css git_diff files
             else
               (case css_loop css git_diff files of
                  None \<Rightarrow> None
                | Some others \<Rightarrow> Some (checkCSSFile css file ranges @ others))))"

definition generate_pr_comments ::
  "(string \<Rightarrow> js_error + string) \<Rightarrow> (string \<Rightarrow> css_violation list) \<Rightarrow> (string \<Rightarrow> js_error + string)
     \<Rightarrow> string list \<Rightarrow> body comment list option" where
  "generate_pr_comments fs css git_diff changedFilesOutput =
     (case ts_loop fs git_diff changedFilesOutput of
        None \<Rightarrow> None
      | Some allComments \<Rightarrow>
          (case css_loop css git_diff changedFilesOutput of
             None \<Rightarrow> None
           | Some cssComments \<Rightarrow> Some (allComments @ cssComments)))"


section \<open>src/unnamed/part_001, second program: checkTypeScriptFile with two loops\<close>

text \<open>
  The five property patterns of this program,
  \<^verbatim>\<open>/^[ \t]*(public|private|protected)?[ \t]*(readonly)?[ \t]*[a-zA-Z0-9_]+\s*=\s*computed\s*[<(]/\<close>
  and its siblings; \<open>ro\<close> and \<open>req\<close> as in \<open>property_re\<close>.
\<close>

definition property_re_part_001 :: "bool \<Rightarrow> string \<Rightarrow> bool \<Rightarrow> re" where
  "property_re_part_001 ro factory req =
     cat [Bol, Star blank_tab, Opt visibility, Star blank_tab,
          (if ro then cat [Opt (lit ''readonly''), Star blank_tab] else Eps),
          Plus Wd, Star WS, C (Ch CHR ''=''), Star WS, lit factory,
          (if req then Opt (lit ''.required'') else Eps), Star WS, C (one_of ''<('')]"

text \<open>The method block of the second loop.\<close>

definition near_method :: "string \<Rightarrow> line_range list \<Rightarrow> string list \<Rightarrow> string \<Rightarrow> int \<Rightarrow> body comment run" where
  "near_method file changedRanges lines line index =
     (let lineNum = index + 1;
          push = (\<lambda>b. \<lparr>path = file, line_number = lineNum, body = b\<rparr>) in
      if test methodRegex line \<and> isNearChangedLine lineNum changedRanges then
        (case snd (getJsDocInfo lines index) of
           Inl e \<Rightarrow> Threw [] e
         | Inr jsDocInfo \<Rightarrow>
             (let actualModifier = getAccessModifier line;
                  hasReturnType = test return_type_re line
              in seq
                  (if \<not> exists jsDocInfo then Done [push MethodMissingJsDocBody]
                   else
                     seq (Done (if \<not> hasReturnsTag (content jsDocInfo)
                                then [push MethodMissingReturnsBody] else []))
                    (seq (let accessCheck = checkAccessModifierTag (content jsDocInfo) actualModifier
                          in Done (if \<not> valid accessCheck
                                   then [push (JsDocStandardBody (message accessCheck))] else []))
                         (case checkParamTags (content jsDocInfo) (extractParams line) of
                            None \<Rightarrow> Unmodelled
                          | Some paramCheck \<Rightarrow>
                              Done (if \<not> params_valid paramCheck
                                    then map (\<lambda>err. push (JsDocStandardBody err)) (errors paramCheck)
                                    else []))))
                  (Done ((if actualModifier = None \<or> actualModifier = Some []
                          then [push MethodMissingAccessBody] else [])
                         @ (if \<not> hasReturnType then [push MethodMissingReturnTypeBody] else [])))))
      else Done [])"

text \<open>
  A property block of the second loop. \<open>what\<close> is the subject of the "Missing JSDoc" and
  "missing access modifier" texts, \<open>short\<close> that of the "single-line" text; only the block
  for computed properties looks for an empty description (\<open>empty_check\<close>).
\<close>

definition near_property ::
  "re \<Rightarrow> string \<Rightarrow> string \<Rightarrow> bool \<Rightarrow> string \<Rightarrow> line_range list \<Rightarrow> string list \<Rightarrow> string \<Rightarrow> int
     \<Rightarrow> body comment run" where
  "near_property regex what short empty_check file changedRanges lines line index =
     (let lineNum = index + 1;
          push = (\<lambda>b. \<lparr>path = file, line_number = lineNum, body = b\<rparr>) in
      if test regex line \<and> isNearChangedLine lineNum changedRanges then
        (case snd (getJsDocInfo lines index) of
           Inl e \<Rightarrow> Threw [] e
         | Inr jsDocInfo \<Rightarrow>
             (let hasAccess = test has_access_re line
              in Done ((if \<not> exists jsDocInfo then [push (PropertyMissingJsDocBody what)]
                        else if \<not> isSingleLine jsDocInfo then [push (PropertyMultiLineBody short)]
                        else if empty_check \<and> trim (strip_delims (content jsDocInfo)) = []
                          then [push PropertyEmptyBody]
                        else [])
                       @ (if \<not> hasAccess then [push (PropertyMissingAccessBody what)] else []))))
      else Done [])"

definition near_line :: "string \<Rightarrow> line_range list \<Rightarrow> string list \<Rightarrow> string \<Rightarrow> int \<Rightarrow> body comment run" where
  "near_line file changedRanges lines line index =
     seq (near_method file changedRanges lines line index)
    (seq (near_property (property_re_part_001 True ''computed'' False) ''Computed property''
            ''Computed property'' True file changedRanges lines line index)
    (seq (near_property (property_re_part_001 True ''signal'' False) ''Signal'' ''Signal'' False
            file changedRanges lines line index)
    (seq (near_property (property_re_part_001 False ''input'' True) ''Input property'' ''Input'' False
            file changedRanges lines line index)
    (seq (near_property (property_re_part_001 False ''output'' False) ''Output property'' ''Output''
            False file changedRanges lines line index)
         (near_property (property_re_part_001 True ''viewChild'' True) ''ViewChild property''
            ''ViewChild'' False file changedRanges lines line index)))))"

text \<open>The first loop runs the substring checks on the changed lines, the second the
  declaration checks on the lines in or near the ranges.\<close>

definition checkTypeScriptFile_part_001 ::
  "(string \<Rightarrow> js_error + string) \<Rightarrow> string \<Rightarrow> line_range list \<Rightarrow> body comment list option" where
  "checkTypeScriptFile_part_001 fs file changedRanges =
     (case fs file of
        Inl error \<Rightarrow> Some []
      | Inr text \<Rightarrow>
          (let lines = split_on CHR 0x0A text in
           case seq (run_lines (\<lambda>line index.
                                  Done (if \<not> isLineChanged (index + 1) changedRanges then []
                                        else marker_comments file line (index + 1)))
                       lines 0)
                    (run_lines (near_line file changedRanges lines) lines 0) of
             Done comments \<Rightarrow> Some comments
           | Threw comments error \<Rightarrow> Some comments
           | Unmodelled \<Rightarrow> None))"


section \<open>The scenario of a changed file\<close>

text \<open>A file of 20 lines; line 6 prints, line 10 declares a method without
  documentation.\<close>

definition scenario_file :: string where
  "scenario_file = join_lines
     [''export class Cart {'',
      ''  items = [];'',
      '''',
      ''  load(): void {'',
      ''    const x = this.items;'',
      ''    console.log(x)'',
      ''  }'',
      '''',
      '''',
      ''  private computeTotal(amount: number): number {'',
      ''    return amount;'',
      ''  }'',
      '''',
      ''  size = 0;'',
      '''',
      ''  clear() {'',
      ''    this.items = [];'',
      ''  }'',
      ''}'',
      '''']"

text \<open>The diff of that file: one hunk, three lines added after line 4.\<close>

definition scenario_diff :: string where
  "scenario_diff = join_lines
     [''diff --git a/cart.ts b/cart.ts'',
      ''--- a/cart.ts'',
      ''+++ b/cart.ts'',
      ''@@ -5,0 +5,3 @@ export class Cart {'',
      ''+    const x = this.items;'',
      ''+    console.log(x)'',
      ''+  }'']"


chapter \<open>Properties\<close>

section \<open>Properties of strings\<close>

lemma trim_Nil_iff: "trim s = [] \<longleftrightarrow> (\<forall>c \<in> set s. is_space c)"
proof
  assume "trim s = []"
  then have "\<forall>c \<in> set (rev (dropWhile is_space s)). is_space c"
    by (simp add: trim_def)
  then have "\<forall>c \<in> set (dropWhile is_space s). is_space c"
    by simp
  then have "dropWhile is_space s = []"
    using hd_dropWhile [of is_space s] hd_in_set [of "dropWhile is_space s"] by blast
  then show "\<forall>c \<in> set s. is_space c"
    by simp
next
  assume "\<forall>c \<in> set s. is_space c"
  then show "trim s = []"
    by (auto simp: trim_def dest: set_dropWhileD)
qed

lemma startsWith_decomp: "startsWith s t \<Longrightarrow> s = t @ drop (length t) s"
  by (induction s t rule: startsWith.induct) (auto split: if_splits)


section \<open>Properties of the access-modifier tag check\<close>

lemma getAccessModifier_keyword:
  "getAccessModifier line = Some m \<Longrightarrow> m = ''public'' \<or> m = ''private'' \<or> m = ''protected''"
  by (auto simp: getAccessModifier_def split: if_splits)

lemma checkAccessModifierTag_keyword:
  assumes "k = ''public'' \<or> k = ''private'' \<or> k = ''protected''"
  shows "checkAccessModifierTag c (Some k) =
     (if tagCount c = 0 then \<lparr>valid = False, message = ''Missing @'' @ k @ '' tag in JSDoc''\<rparr>
      else if 2 \<le> tagCount c then \<lparr>valid = False, message = ''Multiple access modifier tags in JSDoc''\<rparr>
      else if \<not> has_tag k c
        then \<lparr>valid = False, message = ''JSDoc should have @'' @ k @ '' (method is '' @ k @ '')''\<rparr>
      else \<lparr>valid = True, message = []\<rparr>)"
  using assms
proof (elim disjE)
  assume "k = ''public''"
  then show ?thesis by (simp add: checkAccessModifierTag_def)
next
  assume "k = ''private''"
  then show ?thesis by (simp add: checkAccessModifierTag_def)
next
  assume "k = ''protected''"
  then show ?thesis by (simp add: checkAccessModifierTag_def)
qed

text \<open>
  C5. A line has a visibility keyword when \<open>getAccessModifier\<close> finds one, \<open>m\<close>. Then a
  block with none of the tags @public, @private, @protected gets the one error
  "Missing @m tag"; a block with two or three of them gets the one error "Multiple access
  modifier tags"; a block with exactly one of them that is not @m gets the one error
  "JSDoc should have @m"; a block with exactly @m is valid. On a line without a
  keyword the check is skipped: the result is valid whatever the block holds.
\<close>

theorem checkAccessModifierTag_by_tag_count:
  "(getAccessModifier line = Some m \<longrightarrow>
      (tagCount c = 0 \<longrightarrow>
         checkAccessModifierTag c (getAccessModifier line)
           = \<lparr>valid = False, message = ''Missing @'' @ m @ '' tag in JSDoc''\<rparr>)
    \<and> (2 \<le> tagCount c \<longrightarrow>
         checkAccessModifierTag c (getAccessModifier line)
           = \<lparr>valid = False, message = ''Multiple access modifier tags in JSDoc''\<rparr>)
    \<and> (tagCount c = 1 \<and> \<not> has_tag m c \<longrightarrow>
         checkAccessModifierTag c (getAccessModifier line)
           = \<lparr>valid = False,
              message = ''JSDoc should have @'' @ m @ '' (method is '' @ m @ '')''\<rparr>)
    \<and> (tagCount c = 1 \<and> has_tag m c \<longrightarrow>
         checkAccessModifierTag c (getAccessModifier line) = \<lparr>valid = True, message = []\<rparr>))
   \<and> (getAccessModifier line = None \<longrightarrow>
         checkAccessModifierTag c (getAccessModifier line) = \<lparr>valid = True, message = []\<rparr>)"
proof (cases "getAccessModifier line")
  case None
  then show ?thesis by (simp add: checkAccessModifierTag_def)
next
  case (Some k)
  have "checkAccessModifierTag c (Some k) =
     (if tagCount c = 0 then \<lparr>valid = False, message = ''Missing @'' @ k @ '' tag in JSDoc''\<rparr>
      else if 2 \<le> tagCount c then \<lparr>valid = False, message = ''Multiple access modifier tags in JSDoc''\<rparr>
      else if \<not> has_tag k c
        then \<lparr>valid = False, message = ''JSDoc should have @'' @ k @ '' (method is '' @ k @ '')''\<rparr>
      else \<lparr>valid = True, message = []\<rparr>)"
    by (rule checkAccessModifierTag_keyword [OF getAccessModifier_keyword [OF Some]])
  with Some show ?thesis by auto
qed

theorem checkAccessModifierTag_by_tag_count_witness:
  "getAccessModifier ''  private total(): number {'' = Some ''private''
   \<and> tagCount ''/** Sum. @returns {number} the sum */'' = 0
   \<and> checkAccessModifierTag ''/** Sum. @returns {number} the sum */''
        (getAccessModifier ''  private total(): number {'')
       = \<lparr>valid = False, message = ''Missing @private tag in JSDoc''\<rparr>
   \<and> 2 \<le> tagCount ''/** @public @private */''
   \<and> checkAccessModifierTag ''/** @public @private */''
        (getAccessModifier ''  private total(): number {'')
       = \<lparr>valid = False, message = ''Multiple access modifier tags in JSDoc''\<rparr>
   \<and> tagCount ''/** @public */'' = 1 \<and> \<not> has_tag ''private'' ''/** @public */''
   \<and> checkAccessModifierTag ''/** @public */''
        (getAccessModifier ''  private total(): number {'')
       = \<lparr>valid = False, message = ''JSDoc should have @private (method is private)''\<rparr>
   \<and> getAccessModifier ''  total(): number {'' = None
   \<and> checkAccessModifierTag ''/** @public @private */''
        (getAccessModifier ''  total(): number {'') = \<lparr>valid = True, message = []\<rparr>"
proof -
  have m: "getAccessModifier ''  private total(): number {'' = Some ''private''"
    by code_simp
  have n: "getAccessModifier ''  total(): number {'' = None"
    by code_simp
  have c0: "tagCount ''/** Sum. @returns {number} the sum */'' = 0"
    by code_simp
  have c2: "2 \<le> tagCount ''/** @public @private */''"
    by code_simp
  have c1: "tagCount ''/** @public */'' = 1" "\<not> has_tag ''private'' ''/** @public */''"
    by code_simp+
  note t = checkAccessModifierTag_by_tag_count
  from t [of "''  private total(): number {''" "''private''" "''/** Sum. @returns {number} the sum */''"] m c0
  have r0: "checkAccessModifierTag ''/** Sum. @returns {number} the sum */''
        (getAccessModifier ''  private total(): number {'')
       = \<lparr>valid = False, message = ''Missing @private tag in JSDoc''\<rparr>"
    by simp
  from t [of "''  private total(): number {''" "''private''" "''/** @public @private */''"] m c2
  have r2: "checkAccessModifierTag ''/** @public @private */''
        (getAccessModifier ''  private total(): number {'')
       = \<lparr>valid = False, message = ''Multiple access modifier tags in JSDoc''\<rparr>"
    by simp
  from t [of "''  private total(): number {''" "''private''" "''/** @public */''"] m c1
  have r1: "checkAccessModifierTag ''/** @public */''
        (getAccessModifier ''  private total(): number {'')
       = \<lparr>valid = False, message = ''JSDoc should have @private (method is private)''\<rparr>"
    by simp
  from t [of "''  total(): number {''" "''private''" "''/** @public @private */''"] n
  have rn: "checkAccessModifierTag ''/** @public @private */''
        (getAccessModifier ''  total(): number {'') = \<lparr>valid = True, message = []\<rparr>"
    by simp
  from m n c0 c2 c1 r0 r2 r1 rn show ?thesis by (intro conjI)
qed




section \<open>Properties of the single-line format check\<close>

text \<open>What \<open>strip_delims\<close> does with a delimiter and with a white-space character at the
  start of a text.\<close>

lemma strip_delims_Nil: "strip_delims [] = []"
  by (simp add: strip_delims.simps [of "[]"])

lemma strip_delims_open: "strip_delims (''/**'' @ s) = strip_delims s"
  by (subst strip_delims.simps) simp

lemma strip_delims_close: "strip_delims (''*/'' @ s) = strip_delims s"
  by (subst strip_delims.simps) simp

lemma strip_delims_space: "is_space c \<Longrightarrow> strip_delims (c # s) = c # strip_delims s"
  by (auto simp: strip_delims.simps [of "c # s"] is_space_def)

lemma strip_delims_of_pieces:
  "\<forall>p \<in> set ps. p = ''/**'' \<or> p = ''*/'' \<or> (\<exists>c. p = [c] \<and> is_space c) \<Longrightarrow>
     \<forall>c \<in> set (strip_delims (concat ps)). is_space c"
proof (induction ps)
  case Nil
  show ?case by (simp add: strip_delims_Nil)
next
  case (Cons p ps)
  then have ih: "\<forall>c \<in> set (strip_delims (concat ps)). is_space c"
    by simp
  from Cons.prems consider "p = ''/**''" | "p = ''*/''" | c where "p = [c]" "is_space c"
    by auto
  then show ?case
  proof cases
    case 1
    with ih show ?thesis using strip_delims_open [of "concat ps"] by simp
  next
    case 2
    with ih show ?thesis using strip_delims_close [of "concat ps"] by simp
  next
    case 3
    with ih show ?thesis by (simp add: strip_delims_space)
  qed
qed

lemma strip_delims_pieces:
  "\<forall>c \<in> set (strip_delims s). is_space c \<Longrightarrow>
     \<exists>ps. s = concat ps \<and> (\<forall>p \<in> set ps. p = ''/**'' \<or> p = ''*/'' \<or> (\<exists>c. p = [c] \<and> is_space c))"
proof (induction s rule: strip_delims.induct)
  case (1 s)
  let ?ok = "\<lambda>p. p = ''/**'' \<or> p = ''*/'' \<or> (\<exists>c. p = [c] \<and> is_space c)"
  show ?case
  proof (cases "s = []")
    case True
    then show ?thesis by (intro exI [of _ "[]"]) simp
  next
    case ne: False
    show ?thesis
    proof (cases "startsWith s ''/**''")
      case True
      then have s: "s = ''/**'' @ drop 3 s"
        using startsWith_decomp [of s "''/**''"] by (simp add: numeral_3_eq_3)
      from "1.prems" True ne have "\<forall>c \<in> set (strip_delims (drop 3 s)). is_space c"
        by (simp add: strip_delims.simps [of s])
      from "1.IH"(1) [OF ne True this] obtain ps where
        "drop 3 s = concat ps" "\<forall>p \<in> set ps. ?ok p" by blast
      with s show ?thesis
        by (intro exI [of _ "''/**'' # ps"]) simp
    next
      case no: False
      show ?thesis
      proof (cases "startsWith s ''*/''")
        case True
        then have s: "s = ''*/'' @ drop 2 s"
          using startsWith_decomp [of s "''*/''"] by (simp add: numeral_2_eq_2)
        from "1.prems" True no ne have "\<forall>c \<in> set (strip_delims (drop 2 s)). is_space c"
          by (simp add: strip_delims.simps [of s])
        from "1.IH"(2) [OF ne no True this] obtain ps where
          "drop 2 s = concat ps" "\<forall>p \<in> set ps. ?ok p" by blast
        with s show ?thesis
          by (intro exI [of _ "''*/'' # ps"]) simp
      next
        case False
        with "1.prems" no ne have h: "is_space (hd s)" "\<forall>c \<in> set (strip_delims (tl s)). is_space c"
          by (simp_all add: strip_delims.simps [of s])
        from "1.IH"(3) [OF ne no False h(2)] obtain ps where
          "tl s = concat ps" "\<forall>p \<in> set ps. ?ok p" by blast
        with ne h(1) hd_Cons_tl [of s] show ?thesis
          by (intro exI [of _ "[hd s] # ps"]) auto
      qed
    qed
  qed
qed

text \<open>
  C6. For a block that is not single-line the check returns exactly one error, the format
  error, whatever the block's text is. The "empty description" error is returned only for a
  single-line block, and exactly when its text is made of delimiters \<^verbatim>\<open>/**\<close> and
  \<^verbatim>\<open>*/\<close> and of white-space characters only, so that without the delimiters it is
  empty or white space. So no result holds both errors.
\<close>

theorem checkSingleLineJsDoc_one_format_error:
  "(\<not> isSingleLine info \<longrightarrow>
      checkSingleLineJsDoc info pt
        = [pt @ '' should have single-line JSDoc (/** ... */), not multi-line''])
   \<and> (isSingleLine info \<longrightarrow>
      checkSingleLineJsDoc info pt
        = (if \<exists>ps. content info = concat ps
                   \<and> (\<forall>p \<in> set ps. p = ''/**'' \<or> p = ''*/'' \<or> (\<exists>c. p = [c] \<and> is_space c))
           then [pt @ '' JSDoc is empty - add a description''] else []))
   \<and> \<not> (pt @ '' should have single-line JSDoc (/** ... */), not multi-line''
            \<in> set (checkSingleLineJsDoc info pt)
          \<and> pt @ '' JSDoc is empty - add a description'' \<in> set (checkSingleLineJsDoc info pt))"
proof -
  let ?ok = "\<lambda>p. p = ''/**'' \<or> p = ''*/'' \<or> (\<exists>c. p = [c] \<and> is_space c)"
  have "trim (strip_delims (content info)) = [] \<longleftrightarrow>
        (\<exists>ps. content info = concat ps \<and> (\<forall>p \<in> set ps. ?ok p))"
  proof
    assume "trim (strip_delims (content info)) = []"
    then have "\<forall>c \<in> set (strip_delims (content info)). is_space c"
      by (simp add: trim_Nil_iff)
    then show "\<exists>ps. content info = concat ps \<and> (\<forall>p \<in> set ps. ?ok p)"
      by (rule strip_delims_pieces)
  next
    assume "\<exists>ps. content info = concat ps \<and> (\<forall>p \<in> set ps. ?ok p)"
    then obtain ps where h: "content info = concat ps \<and> (\<forall>p \<in> set ps. ?ok p)" ..
    then have "\<forall>c \<in> set (strip_delims (concat ps)). is_space c"
      by (intro strip_delims_of_pieces) (rule conjunct2)
    with h show "trim (strip_delims (content info)) = []"
      by (simp add: trim_Nil_iff)
  qed
  then show ?thesis
    by (simp add: checkSingleLineJsDoc_def)
qed

theorem checkSingleLineJsDoc_one_format_error_witness:
  "\<not> isSingleLine \<lparr>exists = True, isSingleLine = False, startIdx = 3, endIdx = 5,
                      content = ''/**'' @ [CHR 0x0A] @ '' * Count.'' @ [CHR 0x0A] @ '' */''\<rparr>
   \<and> checkSingleLineJsDoc \<lparr>exists = True, isSingleLine = False, startIdx = 3, endIdx = 5,
                      content = ''/**'' @ [CHR 0x0A] @ '' * Count.'' @ [CHR 0x0A] @ '' */''\<rparr> ''Signal''
       = [''Signal should have single-line JSDoc (/** ... */), not multi-line'']
   \<and> isSingleLine \<lparr>exists = True, isSingleLine = True, startIdx = 3, endIdx = 3,
                      content = ''  /**  */''\<rparr>
   \<and> ''  /**  */'' = concat ['' '', '' '', ''/**'', '' '', '' '', ''*/'']
   \<and> checkSingleLineJsDoc \<lparr>exists = True, isSingleLine = True, startIdx = 3, endIdx = 3,
                      content = ''  /**  */''\<rparr> ''Signal''
       = [''Signal JSDoc is empty - add a description'']
   \<and> checkSingleLineJsDoc \<lparr>exists = True, isSingleLine = True, startIdx = 3, endIdx = 3,
                      content = ''  /** Count. */''\<rparr> ''Signal'' = []
   \<and> \<not> (\<exists>ps. ''  /** Count. */'' = concat ps
             \<and> (\<forall>p \<in> set ps. p = ''/**'' \<or> p = ''*/'' \<or> (\<exists>c. p = [c] \<and> is_space c)))"
proof -
  let ?ok = "\<lambda>p. p = ''/**'' \<or> p = ''*/'' \<or> (\<exists>c. p = [c] \<and> is_space c)"
  let ?multi = "\<lparr>exists = True, isSingleLine = False, startIdx = 3, endIdx = 5,
                 content = ''/**'' @ [CHR 0x0A] @ '' * Count.'' @ [CHR 0x0A] @ '' */''\<rparr>"
  let ?blank = "\<lparr>exists = True, isSingleLine = True, startIdx = 3, endIdx = 3,
                 content = ''  /**  */''\<rparr>"
  let ?count = "\<lparr>exists = True, isSingleLine = True, startIdx = 3, endIdx = 3,
                 content = ''  /** Count. */''\<rparr>"
  note t1 = checkSingleLineJsDoc_one_format_error [THEN conjunct1, rule_format]
  note t2 = checkSingleLineJsDoc_one_format_error [THEN conjunct2, THEN conjunct1, rule_format]
  have s1: "\<not> isSingleLine ?multi" and s2: "isSingleLine ?blank" and s3: "isSingleLine ?count"
    by simp_all
  have m: "checkSingleLineJsDoc ?multi ''Signal''
       = [''Signal'' @ '' should have single-line JSDoc (/** ... */), not multi-line'']"
    by (rule t1 [OF s1])
  have sp: "is_space CHR '' ''"
    by (simp add: is_space_def)
  have c: "''  /**  */'' = concat ['' '', '' '', ''/**'', '' '', '' '', ''*/'']"
    by simp
  have "content ?blank = concat ['' '', '' '', ''/**'', '' '', '' '', ''*/'']
        \<and> (\<forall>p \<in> set ['' '', '' '', ''/**'', '' '', '' '', ''*/'']. ?ok p)"
    using sp by simp
  then have ex: "\<exists>ps. content ?blank = concat ps \<and> (\<forall>p \<in> set ps. ?ok p)"
    by (rule exI [of _ "['' '', '' '', ''/**'', '' '', '' '', ''*/'']"])
  have "checkSingleLineJsDoc ?blank ''Signal''
       = (if \<exists>ps. content ?blank = concat ps \<and> (\<forall>p \<in> set ps. ?ok p)
          then [''Signal'' @ '' JSDoc is empty - add a description''] else [])"
    by (rule t2 [OF s2])
  with ex have e: "checkSingleLineJsDoc ?blank ''Signal''
       = [''Signal'' @ '' JSDoc is empty - add a description'']"
    by (simp only: if_True)
  have v: "checkSingleLineJsDoc ?count ''Signal'' = []"
    by code_simp
  have r: "checkSingleLineJsDoc ?count ''Signal''
       = (if \<exists>ps. content ?count = concat ps \<and> (\<forall>p \<in> set ps. ?ok p)
          then [''Signal'' @ '' JSDoc is empty - add a description''] else [])"
    by (rule t2 [OF s3])
  have n: "\<not> (\<exists>ps. content ?count = concat ps \<and> (\<forall>p \<in> set ps. ?ok p))"
  proof
    assume "\<exists>ps. content ?count = concat ps \<and> (\<forall>p \<in> set ps. ?ok p)"
    with r have "checkSingleLineJsDoc ?count ''Signal''
                   = [''Signal'' @ '' JSDoc is empty - add a description'']"
      by (simp only: if_True)
    with v show False
      by (simp only: list.distinct)
  qed
  have k: "content ?count = ''  /** Count. */''"
    by simp
  from n have n': "\<not> (\<exists>ps. ''  /** Count. */'' = concat ps \<and> (\<forall>p \<in> set ps. ?ok p))"
    unfolding k .
  from m have m': "checkSingleLineJsDoc ?multi ''Signal''
       = [''Signal should have single-line JSDoc (/** ... */), not multi-line'']"
    by simp
  from e have e': "checkSingleLineJsDoc ?blank ''Signal''
       = [''Signal JSDoc is empty - add a description'']"
    by simp
  from s1 m' s2 c e' v n' show ?thesis
    by (intro conjI)
qed

section \<open>Properties of getJsDocInfo: reads and boundaries\<close>

lemma skip_blank_reads: "i \<in> set (fst (skip_blank ls j)) \<Longrightarrow> 0 \<le> i \<and> i \<le> j"
proof (induction ls j rule: skip_blank.induct)
  case (1 ls j)
  then show ?case
    by (subst (asm) (2) skip_blank.simps) (fastforce split: if_splits option.splits prod.splits)
qed

lemma skip_blank_le: "snd (skip_blank ls j) = Inr k \<Longrightarrow> k \<le> j"
proof (induction ls j rule: skip_blank.induct)
  case (1 ls j)
  then show ?case
    by (subst (asm) (2) skip_blank.simps) (fastforce split: if_splits option.splits prod.splits)
qed

lemma skip_blank_returns: "j < int (length ls) \<Longrightarrow> \<exists>k. snd (skip_blank ls j) = Inr k"
proof (induction ls j rule: skip_blank.induct)
  case (1 ls j)
  show ?case
  proof (cases "0 \<le> j \<and> trim (ls ! nat j) = []")
    case True
    with "1.prems" have l: "line_at ls j = Some (ls ! nat j)" by (simp add: line_at_def)
    from "1.IH" [OF _ l] True "1.prems" obtain k where "snd (skip_blank ls (j - 1)) = Inr k"
      by auto
    with True l show ?thesis
      by (subst skip_blank.simps) (auto split: prod.splits)
  next
    case False
    with "1.prems" show ?thesis
      by (subst skip_blank.simps) (auto simp: line_at_def)
  qed
qed

lemma skip_blank_throws: "int (length ls) \<le> j \<Longrightarrow> skip_blank ls j = ([j], Inl TypeError)"
  by (subst skip_blank.simps) (simp add: line_at_def)

lemma skip_decorators_reads: "i \<in> set (fst (skip_decorators ls j)) \<Longrightarrow> 0 \<le> i \<and> i \<le> j"
proof (induction ls j rule: skip_decorators.induct)
  case (1 ls j)
  then show ?case
    by (subst (asm) (2) skip_decorators.simps) (fastforce split: if_splits prod.splits)
qed

lemma skip_decorators_returns: "\<exists>k. snd (skip_decorators ls j) = Inr k \<and> k \<le> j"
proof (induction ls j rule: skip_decorators.induct)
  case (1 ls j)
  then show ?case
    by (subst skip_decorators.simps) (fastforce split: if_splits prod.splits)
qed
lemma slice_reads_nonneg: "i \<in> set (slice_reads ls a b) \<Longrightarrow> 0 \<le> i \<and> i < int (length ls)"
  by (auto simp: slice_reads_def rel_index_def split: if_splits)

lemma walk_back_reads: "i \<in> set (fst (walk_back ls e j)) \<Longrightarrow> 0 \<le> i"
proof (induction ls e j rule: walk_back.induct)
  case (1 ls e j)
  then show ?case
    by (subst (asm) (2) walk_back.simps)
       (fastforce split: if_splits prod.splits dest: slice_reads_nonneg)
qed

lemma walk_back_returns: "\<exists>info. snd (walk_back ls e j) = Inr info"
proof (induction ls e j rule: walk_back.induct)
  case (1 ls e j)
  then show ?case
    by (subst walk_back.simps) (fastforce split: if_splits prod.splits)
qed

lemma walk_back_bounds:
  "snd (walk_back ls e j) = Inr info \<Longrightarrow> exists info \<Longrightarrow>
     0 \<le> startIdx info \<and> startIdx info \<le> j \<and> endIdx info = e \<and> \<not> isSingleLine info"
proof (induction ls e j rule: walk_back.induct)
  case (1 ls e j)
  then show ?case
    by (simp add: walk_back.simps [of ls e j] notfound_def split: if_splits prod.splits) force+
qed

lemma scan_forward_reads: "i \<in> set (fst (scan_forward ls e)) \<Longrightarrow> e \<le> i \<and> i < int (length ls)"
proof (induction ls e rule: scan_forward.induct)
  case (1 ls e)
  then show ?case
    by (subst (asm) (2) scan_forward.simps) (fastforce split: if_splits prod.splits)
qed

lemma scan_forward_bounds: "e \<le> snd (scan_forward ls e) \<and> (e \<le> int (length ls) \<longrightarrow> snd (scan_forward ls e) \<le> int (length ls))"
proof (induction ls e rule: scan_forward.induct)
  case (1 ls e)
  then show ?case
    by (simp add: scan_forward.simps [of ls e] split: if_splits prod.splits) force+
qed
lemma walk_back_reads_pair: "walk_back ls e j = (t, r) \<Longrightarrow> i \<in> set t \<Longrightarrow> 0 \<le> i"
  using walk_back_reads [of i ls e j] by simp

lemma scan_forward_reads_pair: "scan_forward ls e = (t, r) \<Longrightarrow> i \<in> set t \<Longrightarrow> e \<le> i"
  using scan_forward_reads [of i ls e] by simp

lemma classify_reads: "0 \<le> j \<Longrightarrow> i \<in> set (fst (classify ls j)) \<Longrightarrow> 0 \<le> i"
  by (auto simp: classify_def Let_def split: if_splits prod.splits
           dest: slice_reads_nonneg walk_back_reads_pair scan_forward_reads_pair)

lemma classify_reads_not_less: "\<not> j < 0 \<Longrightarrow> i \<in> set (fst (classify ls j)) \<Longrightarrow> 0 \<le> i"
  using classify_reads [of j i ls] by simp

lemma classify_returns: "\<exists>info. snd (classify ls j) = Inr info"
  using walk_back_returns [of ls j j]
  by (auto simp: classify_def Let_def split: prod.splits)

lemma classify_bounds:
  assumes "0 \<le> j" and "j \<le> int (length ls)"
    and "snd (classify ls j) = Inr info" and "exists info"
  shows "0 \<le> startIdx info \<and> startIdx info \<le> endIdx info \<and> endIdx info \<le> int (length ls)"
proof -
  consider (single) "info = \<lparr>exists = True, isSingleLine = True, startIdx = j, endIdx = j,
                               content = (case line_at ls j of None \<Rightarrow> ''undefined'' | Some l \<Rightarrow> l)\<rparr>"
    | (walk) "snd (walk_back ls j j) = Inr info"
    | (scan) "startIdx info = j" "endIdx info = snd (scan_forward ls j)"
    | (none) "info = notfound"
    using assms(3)
    by (auto simp: classify_def Let_def split: if_splits prod.splits)
  then show ?thesis
  proof cases
    case single
    with assms show ?thesis by simp
  next
    case walk
    from walk_back_bounds [OF walk assms(4)] assms show ?thesis by simp
  next
    case scan
    with scan scan_forward_bounds [of j ls] assms show ?thesis by simp
  next
    case none
    with assms(4) show ?thesis by (simp add: notfound_def)
  qed
qed

lemma bindT_reads:
  "i \<in> set (fst (bindT m f)) \<Longrightarrow>
     i \<in> set (fst m) \<or> (\<exists>x. snd m = Inr x \<and> i \<in> set (fst (f x)))"
  by (auto simp: bindT_def split: prod.splits sum.splits)

lemma bindT_Inr:
  "snd (bindT m f) = Inr y \<longleftrightarrow> (\<exists>x. snd m = Inr x \<and> snd (f x) = Inr y)"
  by (auto simp: bindT_def split: prod.splits sum.splits)

lemma bindT_Inl:
  "snd (bindT m f) = Inl e \<longleftrightarrow> (snd m = Inl e \<or> (\<exists>x. snd m = Inr x \<and> snd (f x) = Inl e))"
  by (auto simp: bindT_def split: prod.splits sum.splits)

lemma getJsDocInfo_reads: "i \<in> set (fst (getJsDocInfo ls index)) \<Longrightarrow> 0 \<le> i"
  unfolding getJsDocInfo_def
  by (auto dest!: bindT_reads split: if_splits
           dest: skip_blank_reads skip_decorators_reads classify_reads_not_less)

lemma getJsDocInfo_returns:
  assumes "index \<le> int (length ls)"
  shows "\<exists>info. snd (getJsDocInfo ls index) = Inr info"
proof -
  from assms obtain j1 where j1: "snd (skip_blank ls (index - 1)) = Inr j1"
    using skip_blank_returns [of "index - 1" ls] by auto
  obtain j2 where j2: "snd (skip_decorators ls j1) = Inr j2" "j2 \<le> j1"
    using skip_decorators_returns [of ls j1] by auto
  from skip_blank_le [OF j1] j2 assms have "j2 < int (length ls)" by simp
  then obtain j where j: "snd (skip_blank ls j2) = Inr j"
    using skip_blank_returns [of j2 ls] by auto
  obtain info where "snd (classify ls j) = Inr info"
    using classify_returns by blast
  with j1 j2 j show ?thesis
    by (auto simp: getJsDocInfo_def bindT_Inr)
qed

lemma getJsDocInfo_throws:
  "int (length ls) < index \<Longrightarrow> getJsDocInfo ls index = ([index - 1], Inl TypeError)"
  by (simp add: getJsDocInfo_def bindT_def skip_blank_throws)

lemma getJsDocInfo_bounds:
  assumes "snd (getJsDocInfo ls index) = Inr info" and "exists info"
  shows "0 \<le> startIdx info \<and> startIdx info \<le> endIdx info \<and> endIdx info \<le> int (length ls)"
proof -
  from assms(1) obtain j1 j2 j where
    j1: "snd (skip_blank ls (index - 1)) = Inr j1" and
    j2: "snd (skip_decorators ls j1) = Inr j2" and
    j: "snd (skip_blank ls j2) = Inr j" and
    r: "snd (if j < 0 then ([], Inr notfound) else classify ls j) = Inr info"
    by (auto simp: getJsDocInfo_def bindT_Inr)
  have "index - 1 < int (length ls)"
  proof (rule ccontr)
    assume "\<not> index - 1 < int (length ls)"
    then have "skip_blank ls (index - 1) = ([index - 1], Inl TypeError)"
      by (intro skip_blank_throws) simp
    with j1 show False by simp
  qed
  moreover from skip_decorators_returns [of ls j1] j2 have "j2 \<le> j1" by simp
  ultimately have "j \<le> int (length ls)"
    using skip_blank_le [OF j1] skip_blank_le [OF j] by simp
  moreover from r assms(2) have "0 \<le> j" and "snd (classify ls j) = Inr info"
    by (auto simp: notfound_def split: if_splits)
  ultimately show ?thesis
    using classify_bounds assms(2) by blast
qed

text \<open>
  C9. For every array of lines and every integer index, \<open>getJsDocInfo\<close> ends (it is a
  total function: each of its loops has a measure), and every index at which it reads the
  array is at least 0. For an index of at most the number of lines it returns a record;
  for a larger index its first read, \<^verbatim>\<open>lines[index - 1].trim()\<close>, is on
  \<^verbatim>\<open>undefined\<close> and it ends by throwing a TypeError. Whenever it returns a record
  with \<open>exists\<close> true, \<open>0 \<le> startIdx \<le> endIdx\<close>, and \<open>endIdx\<close> is at most the number
  of lines; it equals that number when a \<^verbatim>\<open>/**\<close> opener is never closed.
\<close>

theorem getJsDocInfo_total_and_bounded:
  "(\<forall>i \<in> set (fst (getJsDocInfo ls index)). 0 \<le> i)
   \<and> (index \<le> int (length ls) \<longrightarrow> (\<exists>info. snd (getJsDocInfo ls index) = Inr info))
   \<and> (int (length ls) < index \<longrightarrow> snd (getJsDocInfo ls index) = Inl TypeError)
   \<and> (\<forall>info. snd (getJsDocInfo ls index) = Inr info \<and> exists info \<longrightarrow>
         0 \<le> startIdx info \<and> startIdx info \<le> endIdx info \<and> endIdx info \<le> int (length ls))"
  using getJsDocInfo_reads [of _ ls index] getJsDocInfo_returns [of index ls]
        getJsDocInfo_throws [of ls index] getJsDocInfo_bounds [of ls index]
  by auto
theorem getJsDocInfo_total_and_bounded_witness:
  "getJsDocInfo [''  /**'', ''   * Adds.'', ''  add(a: number): number {''] 2
     = ([1, 1, 1, 1, 1, 1, 0, 0, 1],
        Inr \<lparr>exists = True, isSingleLine = False, startIdx = 0, endIdx = 1,
             content = ''  /**'' @ [CHR 0x0A] @ ''   * Adds.''\<rparr>)
   \<and> getJsDocInfo [''  /**'', ''   * Adds.'', ''  add(a: number): number {''] 1
     = ([0, 0, 0, 0, 0, 1, 2, 0, 1, 2],
        Inr \<lparr>exists = True, isSingleLine = False, startIdx = 0, endIdx = 3,
             content = ''  /**'' @ [CHR 0x0A] @ ''   * Adds.'' @ [CHR 0x0A] @ ''  add(a: number): number {''\<rparr>)
   \<and> (3 :: int) \<le> int (length [''  /**'', ''   * Adds.'', ''  add(a: number): number {''])
   \<and> snd (getJsDocInfo [''  /**'', ''   * Adds.'', ''  add(a: number): number {''] 4) = Inl TypeError"
proof -
  let ?ls = "[''  /**'', ''   * Adds.'', ''  add(a: number): number {'']"
  have a: "getJsDocInfo ?ls 2
     = ([1, 1, 1, 1, 1, 1, 0, 0, 1],
        Inr \<lparr>exists = True, isSingleLine = False, startIdx = 0, endIdx = 1,
             content = ''  /**'' @ [CHR 0x0A] @ ''   * Adds.''\<rparr>)"
    by code_simp
  have b: "getJsDocInfo ?ls 1
     = ([0, 0, 0, 0, 0, 1, 2, 0, 1, 2],
        Inr \<lparr>exists = True, isSingleLine = False, startIdx = 0, endIdx = 3,
             content = ''  /**'' @ [CHR 0x0A] @ ''   * Adds.'' @ [CHR 0x0A] @ ''  add(a: number): number {''\<rparr>)"
    by code_simp
  have c: "int (length ?ls) < 4"
    by simp
  from getJsDocInfo_total_and_bounded [of ?ls 4] c
  have "snd (getJsDocInfo ?ls 4) = Inl TypeError"
    by blast
  with a b show ?thesis
    using getJsDocInfo_total_and_bounded [of ?ls 1] getJsDocInfo_total_and_bounded [of ?ls 2]
    by simp
qed

section \<open>Properties of getJsDocInfo: when no block is found\<close>

lemma walk_back_plain_opener:
  "0 \<le> k \<Longrightarrow> k \<le> j \<Longrightarrow>
   test_js comment_start_re (line_at ls k) \<Longrightarrow> \<not> test_js jsdoc_start_re (line_at ls k) \<Longrightarrow>
   (\<forall>i. k < i \<and> i \<le> j \<longrightarrow> \<not> test_js jsdoc_start_re (line_at ls i)) \<Longrightarrow>
   snd (walk_back ls e j) = Inr notfound"
proof (induction ls e j rule: walk_back.induct)
  case (1 ls e j)
  show ?case
  proof (cases "k = j")
    case True
    with 1 show ?thesis by (simp add: walk_back.simps [of ls e j])
  next
    case False
    with "1.prems" have kj: "k \<le> j - 1" and nj: "\<not> test_js jsdoc_start_re (line_at ls j)" and j0: "0 \<le> j"
      by auto
    show ?thesis
    proof (cases "test_js comment_start_re (line_at ls j) \<and> \<not> test_js jsdoc_start_re (line_at ls j)")
      case True
      with j0 show ?thesis by (simp add: walk_back.simps [of ls e j])
    next
      case no_opener: False
      from "1.prems" have "\<forall>i. k < i \<and> i \<le> j - 1 \<longrightarrow> \<not> test_js jsdoc_start_re (line_at ls i)"
        by simp
      from "1.IH" [OF j0 nj no_opener "1.prems"(1) kj "1.prems"(3) "1.prems"(4) this]
      have "snd (walk_back ls e (j - 1)) = Inr notfound" .
      with j0 nj no_opener show ?thesis
        by (auto simp: walk_back.simps [of ls e j] split: prod.splits)
    qed
  qed
qed

lemma walk_back_no_opener:
  "(\<forall>i. 0 \<le> i \<and> i \<le> j \<longrightarrow> \<not> test_js jsdoc_start_re (line_at ls i)) \<Longrightarrow>
   snd (walk_back ls e j) = Inr notfound"
proof (induction ls e j rule: walk_back.induct)
  case (1 ls e j)
  show ?case
  proof (cases "0 \<le> j")
    case False
    then show ?thesis by (simp add: walk_back.simps [of ls e j])
  next
    case j0: True
    with "1.prems" have nj: "\<not> test_js jsdoc_start_re (line_at ls j)" by simp
    show ?thesis
    proof (cases "test_js comment_start_re (line_at ls j) \<and> \<not> test_js jsdoc_start_re (line_at ls j)")
      case True
      with j0 show ?thesis by (simp add: walk_back.simps [of ls e j])
    next
      case no_opener: False
      from "1.prems" have "\<forall>i. 0 \<le> i \<and> i \<le> j - 1 \<longrightarrow> \<not> test_js jsdoc_start_re (line_at ls i)"
        by simp
      from "1.IH" [OF j0 nj no_opener this]
      have "snd (walk_back ls e (j - 1)) = Inr notfound" .
      with j0 nj no_opener show ?thesis
        by (auto simp: walk_back.simps [of ls e j] split: prod.splits)
    qed
  qed
qed

lemma getJsDocInfo_landing:
  assumes "snd (skip_blank ls (index - 1)) = Inr j1"
    and "snd (skip_decorators ls j1) = Inr j2"
    and "snd (skip_blank ls j2) = Inr j"
  shows "snd (getJsDocInfo ls index) = (if j < 0 then Inr notfound else snd (classify ls j))"
  using assms
  by (auto simp: getJsDocInfo_def bindT_def split: prod.splits sum.splits)

text \<open>
  C3, as the code has it. Let \<open>j\<close> be the line at which the locator stops after it has
  skipped, upward from the target, blank lines, then decorator lines, then blank lines.
  The locator returns \<open>exists = False\<close>
  \<^item> when there is no such line (\<open>j < 0\<close>);
  \<^item> when line \<open>j\<close> matches none of the locator's patterns: it is not a one-line block,
    does not begin with \<^verbatim>\<open>*\<close> and does not begin with \<^verbatim>\<open>/**\<close>; this is the case of a
    documentation block separated from the target by a statement;
  \<^item> when line \<open>j\<close> begins with \<^verbatim>\<open>*\<close> (a closing or middle line) and, walking upward, a
    line that begins with \<^verbatim>\<open>/*\<close> but not with \<^verbatim>\<open>/**\<close> is met before any line that
    begins with \<^verbatim>\<open>/**\<close>;
  \<^item> when line \<open>j\<close> begins with \<^verbatim>\<open>*\<close> and no line from the top to \<open>j\<close> begins with
    \<^verbatim>\<open>/**\<close>.
  Nothing is said of a line that begins with \<^verbatim>\<open>*\<close> outside a comment.
\<close>

theorem getJsDocInfo_not_found:
  assumes "snd (skip_blank ls (index - 1)) = Inr j1"
    and "snd (skip_decorators ls j1) = Inr j2"
    and "snd (skip_blank ls j2) = Inr j"
  shows "(j < 0 \<longrightarrow> snd (getJsDocInfo ls index) = Inr notfound)
    \<and> (0 \<le> j \<and> \<not> test_js single_line_re (line_at ls j)
         \<and> \<not> test_js block_end_re (line_at ls j) \<and> \<not> test_js block_mid_re (line_at ls j)
         \<and> \<not> test_js jsdoc_start_re (line_at ls j)
        \<longrightarrow> snd (getJsDocInfo ls index) = Inr notfound)
    \<and> (0 \<le> j \<and> \<not> test_js single_line_re (line_at ls j)
         \<and> (test_js block_end_re (line_at ls j) \<or> test_js block_mid_re (line_at ls j))
         \<and> (\<exists>k. 0 \<le> k \<and> k \<le> j
                \<and> test_js comment_start_re (line_at ls k) \<and> \<not> test_js jsdoc_start_re (line_at ls k)
                \<and> (\<forall>i. k < i \<and> i \<le> j \<longrightarrow> \<not> test_js jsdoc_start_re (line_at ls i)))
        \<longrightarrow> snd (getJsDocInfo ls index) = Inr notfound)
    \<and> (0 \<le> j \<and> \<not> test_js single_line_re (line_at ls j)
         \<and> (test_js block_end_re (line_at ls j) \<or> test_js block_mid_re (line_at ls j))
         \<and> (\<forall>i. 0 \<le> i \<and> i \<le> j \<longrightarrow> \<not> test_js jsdoc_start_re (line_at ls i))
        \<longrightarrow> snd (getJsDocInfo ls index) = Inr notfound)"
proof -
  note l = getJsDocInfo_landing [OF assms]
  have a: "j < 0 \<longrightarrow> snd (getJsDocInfo ls index) = Inr notfound"
    using l by simp
  have b: "0 \<le> j \<and> \<not> test_js single_line_re (line_at ls j)
         \<and> \<not> test_js block_end_re (line_at ls j) \<and> \<not> test_js block_mid_re (line_at ls j)
         \<and> \<not> test_js jsdoc_start_re (line_at ls j)
        \<longrightarrow> snd (getJsDocInfo ls index) = Inr notfound"
    using l by (simp add: classify_def)
  have c: "0 \<le> j \<and> \<not> test_js single_line_re (line_at ls j)
         \<and> (test_js block_end_re (line_at ls j) \<or> test_js block_mid_re (line_at ls j))
         \<and> (\<exists>k. 0 \<le> k \<and> k \<le> j
                \<and> test_js comment_start_re (line_at ls k) \<and> \<not> test_js jsdoc_start_re (line_at ls k)
                \<and> (\<forall>i. k < i \<and> i \<le> j \<longrightarrow> \<not> test_js jsdoc_start_re (line_at ls i)))
        \<longrightarrow> snd (getJsDocInfo ls index) = Inr notfound"
  proof (intro impI, elim conjE exE)
    fix k
    assume h: "0 \<le> j" "\<not> test_js single_line_re (line_at ls j)"
      "test_js block_end_re (line_at ls j) \<or> test_js block_mid_re (line_at ls j)"
      and k: "0 \<le> k" "k \<le> j" "test_js comment_start_re (line_at ls k)"
        "\<not> test_js jsdoc_start_re (line_at ls k)"
        "\<forall>i. k < i \<and> i \<le> j \<longrightarrow> \<not> test_js jsdoc_start_re (line_at ls i)"
    from walk_back_plain_opener [OF k] have "snd (walk_back ls j j) = Inr notfound" .
    with h l show "snd (getJsDocInfo ls index) = Inr notfound"
      by (auto simp: classify_def split: prod.splits)
  qed
  have d: "0 \<le> j \<and> \<not> test_js single_line_re (line_at ls j)
         \<and> (test_js block_end_re (line_at ls j) \<or> test_js block_mid_re (line_at ls j))
         \<and> (\<forall>i. 0 \<le> i \<and> i \<le> j \<longrightarrow> \<not> test_js jsdoc_start_re (line_at ls i))
        \<longrightarrow> snd (getJsDocInfo ls index) = Inr notfound"
  proof (intro impI, elim conjE)
    assume h: "0 \<le> j" "\<not> test_js single_line_re (line_at ls j)"
      "test_js block_end_re (line_at ls j) \<or> test_js block_mid_re (line_at ls j)"
      and n: "\<forall>i. 0 \<le> i \<and> i \<le> j \<longrightarrow> \<not> test_js jsdoc_start_re (line_at ls i)"
    from walk_back_no_opener [OF n] have "snd (walk_back ls j j) = Inr notfound" .
    with h l show "snd (getJsDocInfo ls index) = Inr notfound"
      by (auto simp: classify_def split: prod.splits)
  qed
  from a b c d show ?thesis by blast
qed
theorem getJsDocInfo_not_found_witness:
  "snd (skip_blank statement_between_file (2 - 1)) = Inr 1
   \<and> snd (skip_decorators statement_between_file 1) = Inr 1
   \<and> snd (skip_blank statement_between_file 1) = Inr 1
   \<and> \<not> test_js single_line_re (line_at statement_between_file 1)
   \<and> \<not> test_js block_end_re (line_at statement_between_file 1)
   \<and> \<not> test_js block_mid_re (line_at statement_between_file 1)
   \<and> \<not> test_js jsdoc_start_re (line_at statement_between_file 1)
   \<and> snd (getJsDocInfo statement_between_file 2) = Inr notfound
   \<and> snd (skip_blank plain_comment_file (5 - 1)) = Inr 4
   \<and> snd (skip_decorators plain_comment_file 4) = Inr 3
   \<and> snd (skip_blank plain_comment_file 3) = Inr 2
   \<and> \<not> test_js single_line_re (line_at plain_comment_file 2)
   \<and> test_js block_end_re (line_at plain_comment_file 2)
   \<and> test_js comment_start_re (line_at plain_comment_file 0)
   \<and> \<not> test_js jsdoc_start_re (line_at plain_comment_file 0)
   \<and> \<not> test_js jsdoc_start_re (line_at plain_comment_file 1)
   \<and> \<not> test_js jsdoc_start_re (line_at plain_comment_file 2)
   \<and> snd (getJsDocInfo plain_comment_file 5) = Inr notfound"
proof -
  have a: "snd (skip_blank statement_between_file (2 - 1)) = Inr 1"
    "snd (skip_decorators statement_between_file 1) = Inr 1"
    "snd (skip_blank statement_between_file 1) = Inr 1"
    by code_simp+
  have b: "\<not> test_js single_line_re (line_at statement_between_file 1)"
    "\<not> test_js block_end_re (line_at statement_between_file 1)"
    "\<not> test_js block_mid_re (line_at statement_between_file 1)"
    "\<not> test_js jsdoc_start_re (line_at statement_between_file 1)"
    by code_simp+
  from getJsDocInfo_not_found [OF a] b
  have r1: "snd (getJsDocInfo statement_between_file 2) = Inr notfound"
    by simp
  have c: "snd (skip_blank plain_comment_file (5 - 1)) = Inr 4"
    "snd (skip_decorators plain_comment_file 4) = Inr 3"
    "snd (skip_blank plain_comment_file 3) = Inr 2"
    by code_simp+
  have d: "\<not> test_js single_line_re (line_at plain_comment_file 2)"
    "test_js block_end_re (line_at plain_comment_file 2)"
    "test_js comment_start_re (line_at plain_comment_file 0)"
    "\<not> test_js jsdoc_start_re (line_at plain_comment_file 0)"
    "\<not> test_js jsdoc_start_re (line_at plain_comment_file 1)"
    "\<not> test_js jsdoc_start_re (line_at plain_comment_file 2)"
    by code_simp+
  have e: "\<forall>i::int. 0 < i \<and> i \<le> 2 \<longrightarrow> \<not> test_js jsdoc_start_re (line_at plain_comment_file i)"
  proof (intro allI impI)
    fix i :: int
    assume "0 < i \<and> i \<le> 2"
    then have "i = 1 \<or> i = 2" by auto
    with d show "\<not> test_js jsdoc_start_re (line_at plain_comment_file i)" by auto
  qed
  have "\<exists>k::int. 0 \<le> k \<and> k \<le> 2
          \<and> test_js comment_start_re (line_at plain_comment_file k)
          \<and> \<not> test_js jsdoc_start_re (line_at plain_comment_file k)
          \<and> (\<forall>i. k < i \<and> i \<le> 2 \<longrightarrow> \<not> test_js jsdoc_start_re (line_at plain_comment_file i))"
    using d e by (intro exI [of _ 0]) simp
  with getJsDocInfo_not_found [OF c] d
  have r2: "snd (getJsDocInfo plain_comment_file 5) = Inr notfound"
    by simp
  from a b r1 c d r2 show ?thesis by (intro conjI)
qed

text \<open>
  The claim of C3 as the specification states it fails. In \<open>separated_block_file\<close> the
  first non-blank, non-decorator line above the method (index 3) is line 2, the second line
  of a statement; the only comment of the file opens and closes on line 0, and lines 1 and 2,
  both non-blank and no decorators, separate it from the method. Line 2 begins with
  \<^verbatim>\<open>*\<close>, so the locator walks up to line 0 and returns \<open>exists = True\<close>.
\<close>

theorem getJsDocInfo_separated_block_counterexample:
  "trim (separated_block_file ! 2) \<noteq> [] \<and> \<not> test decorator_re (separated_block_file ! 2)
   \<and> trim (separated_block_file ! 1) \<noteq> [] \<and> \<not> test decorator_re (separated_block_file ! 1)
   \<and> test single_line_re (separated_block_file ! 0)
   \<and> \<not> includes_str (separated_block_file ! 1) ''/*''
   \<and> \<not> includes_str (separated_block_file ! 1) ''*/''
   \<and> \<not> includes_str (separated_block_file ! 2) ''/*''
   \<and> \<not> includes_str (separated_block_file ! 2) ''*/''
   \<and> snd (getJsDocInfo separated_block_file 3)
       = Inr \<lparr>exists = True, isSingleLine = False, startIdx = 0, endIdx = 2,
              content = ''/** Doc for total */'' @ [CHR 0x0A] @ ''const total = price''
                        @ [CHR 0x0A] @ ''  * quantity;''\<rparr>"
  by code_simp

section \<open>Properties of extractParams\<close>










section \<open>Properties of the changed line ranges\<close>

lemma digits_run:
  assumes "\<forall>x \<in> set a. is_digit x" and "x = [] \<or> \<not> is_digit (hd x)"
  shows "takeWhile is_digit (a @ x) = a" and "dropWhile is_digit (a @ x) = x"
proof -
  from assms(2) have "takeWhile is_digit x = []" and "dropWhile is_digit x = x"
    by (cases x; simp)+
  with assms(1) show "takeWhile is_digit (a @ x) = a" and "dropWhile is_digit (a @ x) = x"
    by simp_all
qed

lemma not_digit_space: "\<not> is_digit CHR '' ''"
  by (simp add: is_digit_def in_range_def)

lemma skip_count_text:
  assumes "\<forall>x. d = Some x \<longrightarrow> x \<noteq> [] \<and> (\<forall>c \<in> set x. is_digit c)"
  shows "skip_count ((case d of None \<Rightarrow> [] | Some x \<Rightarrow> CHR '','' # x) @ CHR '' '' # s) = (d, CHR '' '' # s)"
proof (cases d)
  case None
  then show ?thesis by (simp add: skip_count_def)
next
  case (Some x)
  with assms have x: "x \<noteq> []" "\<forall>c \<in> set x. is_digit c" by auto
  from digits_run [OF x(2), of "CHR '' '' # s"] not_digit_space
  have "takeWhile is_digit (x @ CHR '' '' # s) = x" "dropWhile is_digit (x @ CHR '' '' # s) = CHR '' '' # s"
    by simp_all
  with Some x(1) show ?thesis by (simp add: skip_count_def)
qed

lemma hunk_at_header:
  assumes a: "a \<noteq> [] \<and> (\<forall>x \<in> set a. is_digit x)"
    and c: "c \<noteq> [] \<and> (\<forall>x \<in> set c. is_digit x)"
    and b: "\<forall>x. b = Some x \<longrightarrow> x \<noteq> [] \<and> (\<forall>y \<in> set x. is_digit y)"
    and d: "\<forall>x. d = Some x \<longrightarrow> x \<noteq> [] \<and> (\<forall>y \<in> set x. is_digit y)"
  shows "hunk_at (''@@ -'' @ a @ (case b of None \<Rightarrow> [] | Some x \<Rightarrow> CHR '','' # x) @ '' +'' @ c
                  @ (case d of None \<Rightarrow> [] | Some x \<Rightarrow> CHR '','' # x) @ '' @@'' @ rest) = Some (c, d)"
proof -
  let ?bt = "(case b of None \<Rightarrow> [] | Some x \<Rightarrow> CHR '','' # x)"
  let ?dt = "(case d of None \<Rightarrow> [] | Some x \<Rightarrow> CHR '','' # x)"
  let ?t2 = "?dt @ '' @@'' @ rest"
  let ?t1 = "?bt @ '' +'' @ c @ ?t2"
  have nd: "\<not> is_digit CHR '',''"
    by (simp add: is_digit_def in_range_def)
  have h1: "?t1 = [] \<or> \<not> is_digit (hd ?t1)"
    using nd not_digit_space by (cases b) simp_all
  have h2: "?t2 = [] \<or> \<not> is_digit (hd ?t2)"
    using nd not_digit_space by (cases d) simp_all
  from a digits_run [OF _ h1, of a]
  have r1: "takeWhile is_digit (a @ ?t1) = a" "dropWhile is_digit (a @ ?t1) = ?t1"
    by simp_all
  from skip_count_text [OF b, of "CHR ''+'' # c @ ?t2"]
  have s1: "skip_count ?t1 = (b, '' +'' @ c @ ?t2)"
    by simp
  from c digits_run [OF _ h2, of c]
  have r2: "takeWhile is_digit (c @ ?t2) = c" "dropWhile is_digit (c @ ?t2) = ?t2"
    by simp_all
  from skip_count_text [OF d, of "''@@'' @ rest"]
  have s2: "skip_count ?t2 = (d, '' @@'' @ rest)"
    by simp
  have "hunk_at (''@@ -'' @ a @ ?t1) = Some (c, d)"
    using a c r1 s1 r2 s2 by (simp add: hunk_at_def)
  then show ?thesis by simp
qed

lemma hunk_match_at: "hunk_at s = Some m \<Longrightarrow> hunk_match s = Some m"
  by (cases s) (simp_all add: hunk_at_def)

lemma append_Nil_fun: "(\<lambda>rs. [] @ rs) = (\<lambda>rs. rs)"
  by simp

lemma ranges_loop_acc:
  "ranges_loop ls acc cur = map_option (\<lambda>rs. acc @ rs) (ranges_loop ls [] cur')"
proof (induction ls arbitrary: acc cur cur')
  case Nil
  show ?case by simp
next
  case (Cons l ls)
  show ?case
  proof (cases "hunk_match l")
    case None
    define step where "step = (\<lambda>n :: int.
        if \<not> startsWith l ''-'' \<and> \<not> startsWith l [CHR 0x5C] \<and> \<not> startsWith l ''+++''
        then (if n < 2 ^ 53 then n + 1 else n) else n)"
    from None have "ranges_loop (l # ls) acc cur = ranges_loop ls acc (step cur)"
      and "ranges_loop (l # ls) [] cur' = ranges_loop ls [] (step cur')"
      by (simp_all add: step_def)
    with Cons.IH [of acc "step cur" "step cur'"] show ?thesis
      by simp
  next
    case (Some m)
    obtain g1 g2 where m: "m = (g1, g2)" by (cases m)
    show ?thesis
    proof (cases "parseInt g1")
      case None
      with Some m show ?thesis by simp
    next
      case s1: (Some newStart)
      show ?thesis
      proof (cases "count_or_1 g2")
        case None
        with Some m s1 show ?thesis by simp
      next
        case s2: (Some n)
        show ?thesis
        proof (cases "hunk_range newStart n")
          case None
          with Some m s1 s2 show ?thesis by simp
        next
          case s3: (Some hunk)
          from Some m s1 s2 s3
          have "ranges_loop (l # ls) acc cur = ranges_loop ls (acc @ [hunk]) newStart"
            and "ranges_loop (l # ls) [] cur' = ranges_loop ls [hunk] newStart"
            by simp_all
          with Cons.IH [of "acc @ [hunk]" newStart 0] Cons.IH [of "[hunk]" newStart 0]
          show ?thesis
            by (simp add: option.map_comp comp_def)
        qed
      qed
    qed
  qed
qed

lemma ranges_loop_append:
  "ranges_loop (bs @ cs) [] cur
     = (case ranges_loop bs [] cur of
          None \<Rightarrow> None
        | Some rb \<Rightarrow> map_option (\<lambda>rs. rb @ rs) (ranges_loop cs [] 0))"
proof (induction bs arbitrary: cur)
  case Nil
  show ?case
    using ranges_loop_acc [of cs "[]" cur 0] by (simp add: append_Nil_fun option.map_ident)
next
  case (Cons l bs)
  show ?case
  proof (cases "hunk_match l")
    case None
    then show ?thesis
      using Cons.IH by simp
  next
    case (Some m)
    obtain g1 g2 where m: "m = (g1, g2)" by (cases m)
    show ?thesis
    proof (cases "parseInt g1")
      case None
      with Some m show ?thesis by simp
    next
      case s1: (Some newStart)
      show ?thesis
      proof (cases "count_or_1 g2")
        case None
        with Some m s1 show ?thesis by simp
      next
        case s2: (Some n)
        show ?thesis
        proof (cases "hunk_range newStart n")
          case None
          with Some m s1 s2 show ?thesis by simp
        next
          case s3: (Some hunk)
          from Some m s1 s2 s3
          have "ranges_loop ((l # bs) @ cs) [] cur = ranges_loop (bs @ cs) [hunk] newStart"
            and "ranges_loop (l # bs) [] cur = ranges_loop bs [hunk] newStart"
            by simp_all
          with Cons.IH [of newStart] ranges_loop_acc [of "bs @ cs" "[hunk]" newStart newStart]
            ranges_loop_acc [of bs "[hunk]" newStart newStart]
          show ?thesis
            by (cases "ranges_loop bs [] newStart"; cases "ranges_loop cs [] 0")
               (simp_all add: option.map_comp comp_def)
        qed
      qed
    qed
  qed
qed

text \<open>
  C2, as the code has it. Let the diff of a file hold, between the lines \<open>before\<close> and
  \<open>after\<close>, a hunk header \<^verbatim>\<open>@@ -a[,b] +c[,d] @@\<close>, where \<open>a\<close>, \<open>b\<close>, \<open>c\<close>, \<open>d\<close> are
  non-empty strings of digits and the two counts are optional; let \<open>c\<close> write the number
  \<open>cv\<close> and \<open>d\<close>, when it is there, the number \<open>dv\<close>, with \<open>cv\<close>, \<open>dv\<close> and \<open>cv + dv\<close> at
  most \<open>2^53\<close>. The ranges computed are those of the lines before, then the range of the
  header, then those of the lines after. The range of the header starts at \<open>cv\<close>; it ends
  at \<open>cv + dv - 1\<close> when \<open>dv\<close> is at least 1, as the claim says, and at \<open>cv\<close> when \<open>d\<close> is
  omitted, as the claim says. When \<open>d\<close> is 0 it ends at \<open>cv\<close> too, where the claim says
  \<open>cv - 1\<close>: the count \<^verbatim>\<open>parseInt(d) || 1\<close> is 1 for a missing count and for a count of 0
  alike, so the header of a pure deletion yields a range of one line that the change
  did not touch.
\<close>

theorem getChangedLineRanges_hunk_range:
  assumes "git_diff file = Inr diffOutput"
    and "split_on CHR 0x0A diffOutput = before @ h # after"
    and "h = ''@@ -'' @ a @ (case b of None \<Rightarrow> [] | Some x \<Rightarrow> CHR '','' # x) @ '' +'' @ c
               @ (case d of None \<Rightarrow> [] | Some x \<Rightarrow> CHR '','' # x) @ '' @@'' @ rest"
    and "a \<noteq> [] \<and> (\<forall>x \<in> set a. is_digit x)"
    and "c \<noteq> [] \<and> (\<forall>x \<in> set c. is_digit x)"
    and "\<forall>x. b = Some x \<longrightarrow> x \<noteq> [] \<and> (\<forall>y \<in> set x. is_digit y)"
    and "\<forall>x. d = Some x \<longrightarrow> x \<noteq> [] \<and> (\<forall>y \<in> set x. is_digit y)"
    and "ranges_loop before [] 0 = Some rb"
    and "ranges_loop after [] 0 = Some ra"
    and "parseInt c = Some cv"
    and "case d of None \<Rightarrow> dv = 1 | Some x \<Rightarrow> parseInt x = Some dv"
    and "cv + (if dv = 0 then 1 else dv) \<le> 2 ^ 53"
  shows "getChangedLineRanges git_diff file
           = Some (rb @ [\<lparr>start = cv, end_line = cv + (if dv = 0 then 1 else dv) - 1\<rparr>] @ ra)"
proof -
  let ?r = "\<lparr>start = cv, end_line = cv + (if dv = 0 then 1 else dv) - 1\<rparr>"
  have hm: "hunk_match h = Some (c, d)"
    unfolding assms(3) by (rule hunk_match_at [OF hunk_at_header [OF assms(4,5,6,7)]])
  have cnt: "count_or_1 d = Some (if dv = 0 then 1 else dv)"
    using assms(11) by (cases d) (simp_all add: count_or_1_def)
  have hr: "hunk_range cv (if dv = 0 then 1 else dv) = Some ?r"
    using assms(12) by (simp add: hunk_range_def)
  have "ranges_loop (h # after) [] 0 = ranges_loop after [?r] cv"
    using hm assms(10) cnt hr by simp
  also have "\<dots> = Some (?r # ra)"
    using ranges_loop_acc [of after "[?r]" cv 0] assms(9) by simp
  finally have "ranges_loop (h # after) [] 0 = Some (?r # ra)" .
  with assms(1,2,8) show ?thesis
    by (simp add: getChangedLineRanges_def ranges_loop_append)
qed

theorem getChangedLineRanges_hunk_range_witness:
  "getChangedLineRanges
     (\<lambda>f. Inr (''+++ b/f.ts'' @ [CHR 0x0A] @ ''@@ -5,0 +5,3 @@ class Cart {'' @ [CHR 0x0A] @ ''+  x'')) ''f.ts''
     = Some [\<lparr>start = 5, end_line = 7\<rparr>]
   \<and> getChangedLineRanges (\<lambda>f. Inr ''@@ -8 +9 @@'') ''f.ts'' = Some [\<lparr>start = 9, end_line = 9\<rparr>]
   \<and> getChangedLineRanges (\<lambda>f. Inr ''@@ -5,2 +4,0 @@'') ''f.ts'' = Some [\<lparr>start = 4, end_line = 4\<rparr>]"
proof -
  have dg: "\<forall>x \<in> set ''0123456789''. is_digit x"
    by (simp add: is_digit_def in_range_def)
  have s1: "split_on CHR 0x0A (''+++ b/f.ts'' @ [CHR 0x0A] @ ''@@ -5,0 +5,3 @@ class Cart {'' @ [CHR 0x0A] @ ''+  x'')
      = [''+++ b/f.ts''] @ ''@@ -5,0 +5,3 @@ class Cart {'' # [''+  x'']"
    by simp
  have h1: "''@@ -5,0 +5,3 @@ class Cart {''
      = ''@@ -'' @ ''5'' @ (case Some ''0'' of None \<Rightarrow> [] | Some x \<Rightarrow> CHR '','' # x) @ '' +'' @ ''5''
        @ (case Some ''3'' of None \<Rightarrow> [] | Some x \<Rightarrow> CHR '','' # x) @ '' @@'' @ '' class Cart {''"
    by simp
  have l1: "ranges_loop [''+++ b/f.ts''] [] 0 = Some []" "ranges_loop [''+  x''] [] 0 = Some []"
    by code_simp+
  have p1: "parseInt ''5'' = Some 5" "case Some ''3'' of None \<Rightarrow> (3 :: int) = 1 | Some x \<Rightarrow> parseInt x = Some 3"
    by code_simp+
  have r1: "getChangedLineRanges
     (\<lambda>f. Inr (''+++ b/f.ts'' @ [CHR 0x0A] @ ''@@ -5,0 +5,3 @@ class Cart {'' @ [CHR 0x0A] @ ''+  x'')) ''f.ts''
     = Some ([] @ [\<lparr>start = 5, end_line = 5 + (if (3 :: int) = 0 then 1 else 3) - 1\<rparr>] @ [])"
    using dg by (intro getChangedLineRanges_hunk_range [OF _ s1 h1 _ _ _ _ l1 p1]) simp_all
  have s2: "split_on CHR 0x0A ''@@ -8 +9 @@'' = [] @ ''@@ -8 +9 @@'' # []"
    by simp
  have h2: "''@@ -8 +9 @@''
      = ''@@ -'' @ ''8'' @ (case None of None \<Rightarrow> [] | Some x \<Rightarrow> CHR '','' # x) @ '' +'' @ ''9''
        @ (case None of None \<Rightarrow> [] | Some x \<Rightarrow> CHR '','' # x) @ '' @@'' @ []"
    by simp
  have l2: "ranges_loop [] [] 0 = Some []"
    by simp
  have p2: "parseInt ''9'' = Some 9" "case None of None \<Rightarrow> (1 :: int) = 1 | Some x \<Rightarrow> parseInt x = Some 1"
    by code_simp+
  have r2: "getChangedLineRanges (\<lambda>f. Inr ''@@ -8 +9 @@'') ''f.ts''
     = Some ([] @ [\<lparr>start = 9, end_line = 9 + (if (1 :: int) = 0 then 1 else 1) - 1\<rparr>] @ [])"
    using dg by (intro getChangedLineRanges_hunk_range [OF _ s2 h2 _ _ _ _ l2 l2 p2]) simp_all
  have s3: "split_on CHR 0x0A ''@@ -5,2 +4,0 @@'' = [] @ ''@@ -5,2 +4,0 @@'' # []"
    by simp
  have h3: "''@@ -5,2 +4,0 @@''
      = ''@@ -'' @ ''5'' @ (case Some ''2'' of None \<Rightarrow> [] | Some x \<Rightarrow> CHR '','' # x) @ '' +'' @ ''4''
        @ (case Some ''0'' of None \<Rightarrow> [] | Some x \<Rightarrow> CHR '','' # x) @ '' @@'' @ []"
    by simp
  have p3: "parseInt ''4'' = Some 4" "case Some ''0'' of None \<Rightarrow> (0 :: int) = 1 | Some x \<Rightarrow> parseInt x = Some 0"
    by code_simp+
  have r3: "getChangedLineRanges (\<lambda>f. Inr ''@@ -5,2 +4,0 @@'') ''f.ts''
     = Some ([] @ [\<lparr>start = 4, end_line = 4 + (if (0 :: int) = 0 then 1 else 0) - 1\<rparr>] @ [])"
    using dg by (intro getChangedLineRanges_hunk_range [OF _ s3 h3 _ _ _ _ l2 l2 p3]) simp_all
  from r1 r2 r3 show ?thesis
    by simp
qed

text \<open>
  The header \<^verbatim>\<open>@@ -5,2 +4,0 @@\<close> of a deletion of two lines gives the range from 4 to 4,
  not the empty range from 4 to 3 of the claim, and line 4, which the change did not
  touch, counts as changed.
\<close>

theorem getChangedLineRanges_zero_count_counterexample:
  "getChangedLineRanges (\<lambda>f. Inr ''@@ -5,2 +4,0 @@'') ''f.ts'' = Some [\<lparr>start = 4, end_line = 4\<rparr>]
   \<and> getChangedLineRanges (\<lambda>f. Inr ''@@ -5,2 +4,0 @@'') ''f.ts''
       \<noteq> Some [\<lparr>start = 4, end_line = 4 + 0 - 1\<rparr>]
   \<and> isLineChanged 4 [\<lparr>start = 4, end_line = 4\<rparr>]
   \<and> \<not> isLineChanged 4 [\<lparr>start = 4, end_line = 4 + 0 - 1\<rparr>]"
  by code_simp

text \<open>The range of the model: \<open>2^53\<close> is parsed, the next number is not.\<close>

lemma parseInt_range:
  "parseInt ''9007199254740992'' = Some (2 ^ 53)"
  "parseInt ''9007199254740993'' = None"
  by code_simp+


section \<open>Properties of postReview\<close>

text \<open>
  C8. Let \<open>review\<close> be the detailed review request: its inline comments are the violations
  in order, one for one (same path, line and body, side RIGHT), cut after the first 30.
  Let \<open>summary\<close> be the request for the summary comment. For a non-empty list of violations
  the review is requested first; if it succeeds nothing else is requested; if it fails, the
  summary is requested, once, and the run resolves when that succeeds (it is rejected when
  the summary fails too). For an empty list, or a file that cannot be read or parsed, no
  request is made.
\<close>

theorem postReview_requests:
  assumes "review = CreateReview (owner ctx) (repo ctx) (number ctx)
                      (length comments) ''REQUEST_CHANGES''
                      (take 30 (map (\<lambda>c. \<lparr>path = path c, line_number = line_number c,
                                            body = body c, side = ''RIGHT''\<rparr>) comments))"
    and "summary = CreateComment (owner ctx) (repo ctx) (number ctx) (length comments)"
  shows "(comments \<noteq> [] \<longrightarrow>
           (createReview review \<longrightarrow>
              postReview createReview createComment ctx (Inr comments) = ([review], Resolved))
         \<and> (\<not> createReview review \<and> createComment summary \<longrightarrow>
              postReview createReview createComment ctx (Inr comments)
                = ([review, summary], Resolved))
         \<and> (\<not> createReview review \<and> \<not> createComment summary \<longrightarrow>
              postReview createReview createComment ctx (Inr comments)
                = ([review, summary], Rejected)))
     \<and> length (take 30 (map (\<lambda>c. \<lparr>path = path c, line_number = line_number c,
                                    body = body c, side = ''RIGHT''\<rparr>) comments))
         = min 30 (length comments)
     \<and> (\<forall>i < min 30 (length comments).
           take 30 (map (\<lambda>c. \<lparr>path = path c, line_number = line_number c,
                                body = body c, side = ''RIGHT''\<rparr>) comments) ! i
             = \<lparr>path = path (comments ! i), line_number = line_number (comments ! i),
                body = body (comments ! i), side = ''RIGHT''\<rparr>)
     \<and> postReview createReview createComment ctx (Inr []) = ([], Resolved)
     \<and> postReview createReview createComment ctx (Inl error) = ([], Resolved)"
proof (intro conjI)
  show "comments \<noteq> [] \<longrightarrow>
           (createReview review \<longrightarrow>
              postReview createReview createComment ctx (Inr comments) = ([review], Resolved))
         \<and> (\<not> createReview review \<and> createComment summary \<longrightarrow>
              postReview createReview createComment ctx (Inr comments)
                = ([review, summary], Resolved))
         \<and> (\<not> createReview review \<and> \<not> createComment summary \<longrightarrow>
              postReview createReview createComment ctx (Inr comments)
                = ([review, summary], Rejected))"
    using assms by (simp add: postReview_def Let_def)
  show "length (take 30 (map (\<lambda>c. \<lparr>path = path c, line_number = line_number c,
                                    body = body c, side = ''RIGHT''\<rparr>) comments))
         = min 30 (length comments)"
    by simp
  show "\<forall>i < min 30 (length comments).
           take 30 (map (\<lambda>c. \<lparr>path = path c, line_number = line_number c,
                                body = body c, side = ''RIGHT''\<rparr>) comments) ! i
             = \<lparr>path = path (comments ! i), line_number = line_number (comments ! i),
                body = body (comments ! i), side = ''RIGHT''\<rparr>"
    by simp
  show "postReview createReview createComment ctx (Inr []) = ([], Resolved)"
    by (simp add: postReview_def)
  show "postReview createReview createComment ctx (Inl error) = ([], Resolved)"
    by (simp add: postReview_def)
qed

theorem postReview_requests_witness:
  "postReview (\<lambda>r. False) (\<lambda>r. True) \<lparr>owner = ''acme'', repo = ''shop'', number = 7\<rparr>
     (Inr [\<lparr>path = ''a.ts'', line_number = 6, body = ''console.log''\<rparr>,
           \<lparr>path = ''a.ts'', line_number = 10, body = ''Missing JSDoc''\<rparr>])
     = ([CreateReview ''acme'' ''shop'' 7 2 ''REQUEST_CHANGES''
           [\<lparr>path = ''a.ts'', line_number = 6, body = ''console.log'', side = ''RIGHT''\<rparr>,
            \<lparr>path = ''a.ts'', line_number = 10, body = ''Missing JSDoc'', side = ''RIGHT''\<rparr>],
         CreateComment ''acme'' ''shop'' 7 2], Resolved)"
proof -
  let ?cs = "[\<lparr>path = ''a.ts'', line_number = 6, body = ''console.log''\<rparr>,
              \<lparr>path = ''a.ts'', line_number = 10, body = ''Missing JSDoc''\<rparr>]"
  have ne: "?cs \<noteq> []" by simp
  from postReview_requests [OF refl refl, where comments = ?cs and createReview = "\<lambda>r. False"
      and createComment = "\<lambda>r. True" and ctx = "\<lparr>owner = ''acme'', repo = ''shop'', number = 7\<rparr>"
      and error = TypeError] ne
  show ?thesis
    by simp
qed

section \<open>The scenario of a changed file, scanned\<close>

lemma scenario_ranges:
  "getChangedLineRanges (\<lambda>f. Inr scenario_diff) ''cart.ts'' = Some [\<lparr>start = 5, end_line = 7\<rparr>]"
  by code_simp

lemma scenario_one_loop:
  "checkTypeScriptFile (\<lambda>f. Inr scenario_file) ''cart.ts'' [\<lparr>start = 5, end_line = 7\<rparr>]
     = Some [\<lparr>path = ''cart.ts'', line_number = 6, body = ConsoleLogBody\<rparr>]"
  by code_simp

lemma scenario_two_loops:
  "checkTypeScriptFile_part_001 (\<lambda>f. Inr scenario_file) ''cart.ts'' [\<lparr>start = 5, end_line = 7\<rparr>]
     = Some [\<lparr>path = ''cart.ts'', line_number = 6, body = ConsoleLogBody\<rparr>,
             \<lparr>path = ''cart.ts'', line_number = 10, body = MethodMissingJsDocBody\<rparr>]"
  by code_simp

lemma scenario_shape:
  "length (split_on CHR 0x0A scenario_file) = 20"
  "\<not> isLineChanged 10 [\<lparr>start = 5, end_line = 7\<rparr>]"
  "isNearChangedLine 10 [\<lparr>start = 5, end_line = 7\<rparr>]"
  by code_simp+

text \<open>
  C1. The scenario: \<open>scenario_file\<close> has 20 lines, its diff has the one hunk header
  \<^verbatim>\<open>@@ -5,0 +5,3 @@\<close>, so the changed range is 5 to 7; line 6 holds \<^verbatim>\<open>console.log(x)\<close>
  and line 10 is the undocumented \<^verbatim>\<open>private computeTotal(amount: number): number {\<close>,
  near the range but not in it. \<open>checkTypeScriptFile\<close> of generate-pr-comments.js
  returns one comment only, for line 6: its callback returns at line 10 before the method
  check. The \<open>checkTypeScriptFile\<close> of part_001, with its second loop, returns the two
  comments of the claim: the debug statement at line 6 and the missing documentation at
  line 10, and neither a missing access modifier nor a missing return type.
\<close>

theorem checkTypeScriptFile_scenario:
  "length (split_on CHR 0x0A scenario_file) = 20
   \<and> getChangedLineRanges (\<lambda>f. Inr scenario_diff) ''cart.ts'' = Some [\<lparr>start = 5, end_line = 7\<rparr>]
   \<and> \<not> isLineChanged 10 [\<lparr>start = 5, end_line = 7\<rparr>]
   \<and> isNearChangedLine 10 [\<lparr>start = 5, end_line = 7\<rparr>]
   \<and> Option.bind (getChangedLineRanges (\<lambda>f. Inr scenario_diff) ''cart.ts'')
         (checkTypeScriptFile (\<lambda>f. Inr scenario_file) ''cart.ts'')
       = Some [\<lparr>path = ''cart.ts'', line_number = 6, body = ConsoleLogBody\<rparr>]
   \<and> Option.bind (getChangedLineRanges (\<lambda>f. Inr scenario_diff) ''cart.ts'')
         (checkTypeScriptFile_part_001 (\<lambda>f. Inr scenario_file) ''cart.ts'')
       = Some [\<lparr>path = ''cart.ts'', line_number = 6, body = ConsoleLogBody\<rparr>,
               \<lparr>path = ''cart.ts'', line_number = 10, body = MethodMissingJsDocBody\<rparr>]"
  using scenario_shape scenario_one_loop scenario_two_loops
  by (simp only: scenario_ranges Option.bind.simps simp_thms)


section \<open>Failures of reading a file or obtaining its diff\<close>

lemma checkTypeScriptFile_unreadable: "fs f = Inl e \<Longrightarrow> checkTypeScriptFile fs f ranges = Some []"
  by (simp add: checkTypeScriptFile_def)

lemma getChangedLineRanges_no_diff:
  "git_diff f = Inl e \<Longrightarrow> getChangedLineRanges git_diff f = Some []"
  by (simp add: getChangedLineRanges_def)

lemma ts_loop_skips_failed_file:
  assumes "git_diff f = Inl e \<or> (fs f = Inl e \<and> getChangedLineRanges git_diff f \<noteq> None)"
  shows "ts_loop fs git_diff (bs @ f # as) = ts_loop fs git_diff (bs @ as)"
proof (induction bs)
  case Nil
  from assms show ?case
  proof
    assume "git_diff f = Inl e"
    then show ?thesis
      by (simp add: getChangedLineRanges_no_diff)
  next
    assume "fs f = Inl e \<and> getChangedLineRanges git_diff f \<noteq> None"
    then show ?thesis
      by (cases "ts_loop fs git_diff as") (auto simp: checkTypeScriptFile_unreadable)
  qed
next
  case (Cons b bs)
  then show ?case by (simp split: option.splits)
qed

lemma css_loop_skips_failed_file:
  assumes "git_diff f = Inl e \<or> \<not> endsWith f ''.css''"
  shows "css_loop css git_diff (bs @ f # as) = css_loop css git_diff (bs @ as)"
proof (induction bs)
  case Nil
  from assms show ?case
    by (auto simp: getChangedLineRanges_no_diff)
next
  case (Cons b bs)
  then show ?case by (simp split: option.splits)
qed

text \<open>
  The scan of a pull request isolates failures: a file whose diff cannot be obtained, or a
  TypeScript file that cannot be read (its diff within the range of the model),
  contributes no comment, and the comments of the other files are what they are without
  it.
\<close>

lemma generate_pr_comments_isolates_failures:
  assumes "git_diff f = Inl e
           \<or> (fs f = Inl e \<and> \<not> endsWith f ''.css'' \<and> getChangedLineRanges git_diff f \<noteq> None)"
  shows "generate_pr_comments fs css git_diff (bs @ f # as)
           = generate_pr_comments fs css git_diff (bs @ as)"
proof -
  from assms have "ts_loop fs git_diff (bs @ f # as) = ts_loop fs git_diff (bs @ as)"
    by (intro ts_loop_skips_failed_file) auto
  moreover from assms have "css_loop css git_diff (bs @ f # as) = css_loop css git_diff (bs @ as)"
    by (intro css_loop_skips_failed_file) auto
  ultimately show ?thesis
    by (simp add: generate_pr_comments_def split: option.splits)
qed

lemma checkFile_scenario:
  "checkFile (\<lambda>f. if f = ''cart.ts'' then Inr scenario_file else Inl ReadError) ''cart.ts''
     = Done [\<lparr>v_file = ''cart.ts'', v_line = 4, v_message = ''Missing JSDoc above method''\<rparr>,
             \<lparr>v_file = ''cart.ts'', v_line = 4, v_message = ''Missing access modifier on method''\<rparr>,
             \<lparr>v_file = ''cart.ts'', v_line = 10, v_message = ''Missing JSDoc above method''\<rparr>]"
  by code_simp

lemma checkFile_unreadable:
  "checkFile (\<lambda>f. if f = ''cart.ts'' then Inr scenario_file else Inl ReadError) ''gone.ts''
     = Threw [] ReadError"
  by code_simp

text \<open>
  C7. The claim fails in check-code-standards.js. Its \<open>checkFile\<close> reads the file outside
  any \<^verbatim>\<open>try\<close>, and the loop of the command line does not catch: with the unreadable
  \<^verbatim>\<open>gone.ts\<close> before \<^verbatim>\<open>cart.ts\<close> the run ends with the exception of the read and reports
  nothing, although \<^verbatim>\<open>cart.ts\<close> alone has three violations.
\<close>

theorem check_files_unreadable_aborts:
  "check_files (\<lambda>f. if f = ''cart.ts'' then Inr scenario_file else Inl ReadError)
     [''gone.ts'', ''cart.ts''] = Threw [] ReadError
   \<and> check_files (\<lambda>f. if f = ''cart.ts'' then Inr scenario_file else Inl ReadError) [''cart.ts'']
     = Done [\<lparr>v_file = ''cart.ts'', v_line = 4, v_message = ''Missing JSDoc above method''\<rparr>,
             \<lparr>v_file = ''cart.ts'', v_line = 4, v_message = ''Missing access modifier on method''\<rparr>,
             \<lparr>v_file = ''cart.ts'', v_line = 10, v_message = ''Missing JSDoc above method''\<rparr>]"
  by (simp add: checkFile_scenario checkFile_unreadable)

section \<open>Properties of the parameter-tag check\<close>

lemma of_char_underscore: "c = CHR ''_'' \<longleftrightarrow> (of_char c :: nat) = 95"
proof
  assume "c = CHR ''_''" then show "(of_char c :: nat) = 95" by simp
next
  assume "(of_char c :: nat) = 95"
  then have "(of_char c :: nat) = of_char CHR ''_''" by simp
  then show "c = CHR ''_''" by (simp only: of_char_eq_iff)
qed

lemma is_word_canonicalize: "is_word (canonicalize c) \<longleftrightarrow> is_word c"
proof -
  have lt: "(of_char c :: nat) < 256" by simp
  show ?thesis
    using lt
    by (auto simp: is_word_def is_digit_def in_range_def canonicalize_def of_char_underscore)
qed

lemma canonicalize_word_neq:
  "is_word a \<Longrightarrow> \<not> is_word b \<Longrightarrow> canonicalize a \<noteq> canonicalize b"
  by (metis is_word_canonicalize)












lemma startsWith_ci: "startsWith s t \<Longrightarrow> startsWith_ci s t"
  by (induction s t rule: startsWith.induct) (auto split: if_splits)







text \<open>
  Three blocks for which the check reports one error only: the type of the tag holds a
  closing brace, so that no name is read from the tag; the parameter is named
  \<^verbatim>\<open>destructured\<close>, the name that \<open>extractParams\<close> gives to a destructured parameter,
  and is skipped; the name in the tag begins with a character that is no letter, digit
  or underscore, so that no name is read from the tag.
\<close>

lemma checkParamTags_one_error_only:
  "checkParamTags ''/** Sums. @param {{a: number}} total - the total. */''
     [\<lparr>name = ''amount'', type = ''number''\<rparr>]
     = Some \<lparr>params_valid = False,
             errors = [''Missing @param for '' @ [CHR 0x27] @ ''amount'' @ [CHR 0x27]]\<rparr>"
  "checkParamTags ''/** Sums. @param {number} total - the total. */''
     [\<lparr>name = ''destructured'', type = ''number''\<rparr>]
     = Some \<lparr>params_valid = False,
             errors = [''Extra @param '' @ [CHR 0x27] @ ''total'' @ [CHR 0x27] @ '' in JSDoc doesn''
                         @ [CHR 0x27] @ ''t match any function parameter'']\<rparr>"
  "checkParamTags ''/** Sums. @param {number} $total - the total. */''
     [\<lparr>name = ''amount'', type = ''number''\<rparr>]
     = Some \<lparr>params_valid = False,
             errors = [''Missing @param for '' @ [CHR 0x27] @ ''amount'' @ [CHR 0x27]]\<rparr>"
  by code_simp+




end
